(* ===== verification/Prelude.thy ===== *)
theory Prelude
  imports Main "HOL-Library.Sublist"
begin

text \<open>
  Shared vocabulary of the Trivia API development: the Python values the Flask handlers
  of \<open>src/backend/flaskr/__init__.py\<close> inspect (the decoded JSON request body, the
  dictionaries handed to \<open>jsonify\<close>), the exceptions they raise or let escape, and the
  few pieces of Python semantics the handlers rely on: \<open>==\<close> against \<open>None\<close> and
  against an integer, \<open>dict.get\<close>, subscription, iteration and \<open>len\<close>, truthiness,
  and list slicing with negative bounds.  None of these definitions translate code of
  the repository; they fix the meaning of the Python operations the handlers are
  written in.  The collection \<open>py_simps\<close> gathers their evaluation equations.
\<close>

named_theorems py_simps "evaluation equations of the Python value model"

section \<open>Python values and exceptions\<close>

text \<open>
  A decoded JSON value, as \<open>request.get_json()\<close> returns it and as \<open>jsonify\<close> takes
  it: \<open>None\<close>, booleans, integers (Python's unbounded \<open>int\<close>), strings, lists and
  dictionaries (kept as association lists in insertion order, keys distinct as in a
  Python \<open>dict\<close>).  JSON floats are not modelled.
\<close>

datatype pyval =
    PNone
  | PBool bool
  | PInt int
  | PStr string
  | PList "pyval list"
  | PDict "(pyval \<times> pyval) list"

text \<open>
  The exceptions a handler can end with: \<open>abort(code)\<close> raises an HTTP exception;
  the others are raised by Python or by the store and, uncaught, become a 500 response.
\<close>

datatype exc =
    HTTPException nat
  | ValueError
  | KeyError
  | TypeError
  | AttributeError
  | MultipleResultsFound
  | DataError

type_synonym 'a result = "exc + 'a"

section \<open>Python operations\<close>

text \<open>\<open>x == None\<close>: only \<open>None\<close> itself compares equal to \<open>None\<close>.\<close>

definition is_none :: "pyval \<Rightarrow> bool" where
  "is_none v \<longleftrightarrow> v = PNone"

text \<open>
  \<open>x == n\<close> for an integer \<open>n\<close>: integers compare by value and \<open>bool\<close> is a
  subclass of \<open>int\<close> (\<open>True == 1\<close>, \<open>False == 0\<close>); every other value is unequal.
\<close>

fun py_eq_int :: "pyval \<Rightarrow> int \<Rightarrow> bool" where
  "py_eq_int (PInt i) n \<longleftrightarrow> i = n"
| "py_eq_int (PBool b) n \<longleftrightarrow> (if b then 1 else 0) = n"
| "py_eq_int _ n \<longleftrightarrow> False"

text \<open>\<open>d.get(k, None)\<close>: only a dictionary has \<open>get\<close>.\<close>

fun py_get :: "pyval \<Rightarrow> string \<Rightarrow> pyval result" where
  "py_get (PDict kvs) k = Inr (case map_of kvs (PStr k) of None \<Rightarrow> PNone | Some v \<Rightarrow> v)"
| "py_get _ k = Inl AttributeError"

text \<open>\<open>d[k]\<close> with a string key: a missing key raises \<open>KeyError\<close>; a list, string or
  number subscripted by a string raises \<open>TypeError\<close>.\<close>

fun py_getitem :: "pyval \<Rightarrow> string \<Rightarrow> pyval result" where
  "py_getitem (PDict kvs) k = (case map_of kvs (PStr k) of None \<Rightarrow> Inl KeyError | Some v \<Rightarrow> Inr v)"
| "py_getitem _ k = Inl TypeError"

text \<open>\<open>for x in v\<close>: a list yields its elements, a dictionary its keys, a string its
  one-character strings; \<open>None\<close>, booleans and integers are not iterable.\<close>

fun py_iter :: "pyval \<Rightarrow> pyval list result" where
  "py_iter (PList xs) = Inr xs"
| "py_iter (PDict kvs) = Inr (map fst kvs)"
| "py_iter (PStr s) = Inr (map (\<lambda>c. PStr [c]) s)"
| "py_iter _ = Inl TypeError"

text \<open>\<open>len(v)\<close>: defined exactly on the values that iterate, and equal to the number of
  items the iteration yields.\<close>

definition py_len :: "pyval \<Rightarrow> nat result" where
  "py_len v = (case py_iter v of Inl e \<Rightarrow> Inl e | Inr xs \<Rightarrow> Inr (length xs))"

text \<open>\<open>if v:\<close>: \<open>None\<close>, \<open>False\<close>, \<open>0\<close> and empty containers are false.\<close>

fun py_truthy :: "pyval \<Rightarrow> bool" where
  "py_truthy PNone \<longleftrightarrow> False"
| "py_truthy (PBool b) \<longleftrightarrow> b"
| "py_truthy (PInt i) \<longleftrightarrow> i \<noteq> 0"
| "py_truthy (PStr s) \<longleftrightarrow> s \<noteq> []"
| "py_truthy (PList xs) \<longleftrightarrow> xs \<noteq> []"
| "py_truthy (PDict kvs) \<longleftrightarrow> kvs \<noteq> []"

text \<open>
  A dict built by a comprehension or by successive assignments: assigning an existing key
  replaces its value in place, a new key goes to the end.
\<close>

definition dict_set :: "(pyval \<times> pyval) list \<Rightarrow> pyval \<Rightarrow> pyval \<Rightarrow> (pyval \<times> pyval) list" where
  "dict_set kvs k v =
     (if k \<in> fst ` set kvs then map (\<lambda>(k', v'). if k' = k then (k', v) else (k', v')) kvs
      else kvs @ [(k, v)])"

definition dict_of :: "(pyval \<times> pyval) list \<Rightarrow> (pyval \<times> pyval) list" where
  "dict_of items = fold (\<lambda>(k, v) d. dict_set d k v) items []"

text \<open>\<open>try: ... except: abort(code)\<close>: a bare \<open>except\<close> catches every exception,
  the HTTP exception of an \<open>abort\<close> inside the \<open>try\<close> included.\<close>

definition except_abort :: "nat \<Rightarrow> 'a result \<Rightarrow> 'a result" where
  "except_abort code r = (case r of Inl _ \<Rightarrow> Inl (HTTPException code) | Inr v \<Rightarrow> Inr v)"

text \<open>
  \<open>xs[start:stop]\<close> with step 1, as CPython's \<open>PySlice_AdjustIndices\<close> computes it:
  a negative bound counts from the end and is clamped at 0, a bound past the end is
  clamped at the length, and an empty range gives the empty list.
\<close>

definition py_slice_index :: "int \<Rightarrow> int \<Rightarrow> nat" where
  "py_slice_index len i = nat (if i < 0 then max 0 (len + i) else min i len)"

definition py_slice :: "'a list \<Rightarrow> int \<Rightarrow> int \<Rightarrow> 'a list" where
  "py_slice xs start stop =
     (let n = int (length xs); a = py_slice_index n start; b = py_slice_index n stop
      in take (b - a) (drop a xs))"

text \<open>
  Decimal text of integers: \<open>str(i)\<close> in Python, and the integer input syntax of the
  store (an optional sign and decimal digits, surrounded by optional blanks), which the
  store applies when a string is compared with or stored into an integer column.
\<close>

fun nat_digits :: "nat \<Rightarrow> string" where
  "nat_digits n =
     (if n < 10 then [char_of (48 + n)] else nat_digits (n div 10) @ [char_of (48 + n mod 10)])"

declare nat_digits.simps [simp del]

definition int_to_string :: "int \<Rightarrow> string" where
  "int_to_string i = (if i < 0 then CHR ''-'' # nat_digits (nat (- i)) else nat_digits (nat i))"

definition is_digit :: "char \<Rightarrow> bool" where
  "is_digit c \<longleftrightarrow> (48::nat) \<le> of_char c \<and> of_char c < (58::nat)"

definition digit_value :: "char \<Rightarrow> nat" where
  "digit_value c = of_char c - 48"

definition digits_value :: "string \<Rightarrow> nat option" where
  "digits_value ds =
     (if ds \<noteq> [] \<and> list_all is_digit ds
      then Some (foldl (\<lambda>acc d. 10 * acc + digit_value d) 0 ds) else None)"

definition is_blank :: "char \<Rightarrow> bool" where
  "is_blank c \<longleftrightarrow> c \<in> set '' \<newline>'' \<or> of_char c \<in> {9::nat, 11, 12, 13}"

definition strip_blanks :: "string \<Rightarrow> string" where
  "strip_blanks s = rev (dropWhile is_blank (rev (dropWhile is_blank s)))"

definition parse_int :: "string \<Rightarrow> int option" where
  "parse_int s =
     (case strip_blanks s of
        c # ds \<Rightarrow>
          if c = CHR ''-'' then map_option (\<lambda>n. - int n) (digits_value ds)
          else if c = CHR ''+'' then map_option int (digits_value ds)
          else map_option int (digits_value (c # ds))
      | [] \<Rightarrow> None)"

text \<open>
  \<open>str(v)\<close>, as an f-string \<open>{v}\<close> formats a value: a string is itself, the other
  values print as their \<open>repr\<close>.  \<open>repr\<close> of a string picks its quote as CPython
  does and escapes backslashes, the quote, and control characters; bytes above 127 are
  kept as they are.
\<close>

fun join_str :: "string \<Rightarrow> string list \<Rightarrow> string" where
  "join_str sep [] = []"
| "join_str sep [x] = x"
| "join_str sep (x # xs) = x @ sep @ join_str sep xs"

definition hex_digit :: "nat \<Rightarrow> char" where
  "hex_digit n = (if n < 10 then char_of (48 + n) else char_of (87 + n))"

definition repr_char :: "char \<Rightarrow> char \<Rightarrow> string" where
  "repr_char quote c =
     (if c = CHR 0x5C then [CHR 0x5C, CHR 0x5C]
      else if c = quote then [CHR 0x5C, c]
      else if c = CHR 0x0A then [CHR 0x5C, CHR ''n'']
      else if c = CHR 0x0D then [CHR 0x5C, CHR ''r'']
      else if c = CHR 0x09 then [CHR 0x5C, CHR ''t'']
      else if of_char c < (32::nat) \<or> of_char c = (127::nat)
      then [CHR 0x5C, CHR ''x'', hex_digit (of_char c div 16), hex_digit (of_char c mod 16)]
      else [c])"

definition repr_str :: "string \<Rightarrow> string" where
  "repr_str s =
     (let quote = (if CHR 0x27 \<in> set s \<and> CHR 0x22 \<notin> set s then CHR 0x22 else CHR 0x27)
      in quote # concat (map (repr_char quote) s) @ [quote])"

fun py_repr :: "pyval \<Rightarrow> string" where
  "py_repr PNone = ''None''"
| "py_repr (PBool b) = (if b then ''True'' else ''False'')"
| "py_repr (PInt i) = int_to_string i"
| "py_repr (PStr s) = repr_str s"
| "py_repr (PList xs) = ''['' @ join_str '', '' (map py_repr xs) @ '']''"
| "py_repr (PDict kvs) =
     ''{'' @ join_str '', '' (map (\<lambda>(k, v). py_repr k @ '': '' @ py_repr v) kvs) @ ''}''"

definition py_str :: "pyval \<Rightarrow> string" where
  "py_str v = (case v of PStr s \<Rightarrow> s | _ \<Rightarrow> py_repr v)"

declare py_eq_int.simps [py_simps] py_get.simps [py_simps] py_getitem.simps [py_simps]
  py_iter.simps [py_simps] py_truthy.simps [py_simps] is_none_def [py_simps]

section \<open>Shared lemmas\<close>

lemma py_len_PList [simp]: "py_len (PList xs) = Inr (length xs)"
  by (simp add: py_len_def)

lemma py_len_iter: "py_iter v = Inr xs \<Longrightarrow> py_len v = Inr (length xs)"
  by (simp add: py_len_def)

lemma dict_of_distinct:
  "distinct (map fst items) \<Longrightarrow> dict_of items = items"
proof -
  have "distinct (map fst items) \<Longrightarrow> set (map fst items) \<inter> fst ` set d = {} \<Longrightarrow>
        fold (\<lambda>(k, v) d. dict_set d k v) items d = d @ items" for d
    by (induction items arbitrary: d) (auto simp: dict_set_def)
  then show "distinct (map fst items) \<Longrightarrow> dict_of items = items"
    by (simp add: dict_of_def)
qed

lemma except_abort_Inr [simp]: "except_abort code (Inr v) = Inr v"
  by (simp add: except_abort_def)

lemma except_abort_Inl [simp]: "except_abort code (Inl e) = Inl (HTTPException code)"
  by (simp add: except_abort_def)

lemma fold_flag: "fold (\<lambda>p b. if P p then True else b) xs b \<longleftrightarrow> b \<or> (\<exists>p\<in>set xs. P p)"
  by (induction xs arbitrary: b) auto

lemma py_slice_index_nonneg: "0 \<le> i \<Longrightarrow> py_slice_index (int n) i = min (nat i) n"
  by (simp add: py_slice_index_def min_def nat_le_iff)

lemma take_drop_min:
  fixes a b n :: nat
  assumes "n = length xs"
  shows "take (min b n - min a n) (drop (min a n) xs) = take (b - a) (drop a xs)"
proof (cases "a \<le> n")
  case True
  then have "take (min b n - a) (drop a xs) = take (b - a) (drop a xs)"
    using assms by (metis length_drop min_diff take_take take_all_iff order_refl)
  with True show ?thesis by simp
next
  case False
  with assms show ?thesis by simp
qed

text \<open>A slice between two non-negative bounds is \<open>take\<close> after \<open>drop\<close>.\<close>

lemma py_slice_nonneg:
  assumes "0 \<le> a" and "a \<le> b"
  shows "py_slice xs a b = take (nat b - nat a) (drop (nat a) xs)"
  using assms by (simp add: py_slice_def py_slice_index_nonneg Let_def take_drop_min)

lemma length_py_slice_window:
  assumes "0 \<le> k"
  shows "length (py_slice xs a (a + k)) \<le> nat k"
  using assms by (simp add: py_slice_def py_slice_index_def Let_def) (auto simp: max_def min_def)

lemma py_slice_map: "py_slice (map f xs) a b = map f (py_slice xs a b)"
  by (simp add: py_slice_def Let_def take_map drop_map)

lemma sorted_py_slice: "sorted xs \<Longrightarrow> sorted (py_slice xs a b)"
  by (simp add: py_slice_def Let_def)

lemma set_py_slice: "set (py_slice xs a b) \<subseteq> set xs"
  by (auto simp: py_slice_def Let_def dest: in_set_takeD in_set_dropD)

section \<open>Decimal text\<close>

lemma of_char_digit: "(k::nat) < 10 \<Longrightarrow> of_char (char_of (48 + k)) = 48 + k"
  by (simp add: of_char_of)

lemma is_digit_char: "(k::nat) < 10 \<Longrightarrow> is_digit (char_of (48 + k))"
  by (simp add: is_digit_def of_char_digit)

lemma digit_value_char: "k < 10 \<Longrightarrow> digit_value (char_of (48 + k)) = k"
  by (simp add: digit_value_def of_char_digit)

lemma nat_digits_ne: "nat_digits n \<noteq> []"
  by (subst nat_digits.simps) simp

lemma nat_digits_digits: "list_all is_digit (nat_digits n)"
proof (induction n rule: nat_digits.induct)
  case (1 n)
  then show ?case by (subst nat_digits.simps) (simp add: is_digit_char)
qed

lemma nat_digits_value: "foldl (\<lambda>acc d. 10 * acc + digit_value d) 0 (nat_digits n) = n"
proof (induction n rule: nat_digits.induct)
  case (1 n)
  then show ?case by (subst nat_digits.simps) (simp add: digit_value_char)
qed

lemma digits_value_nat_digits: "digits_value (nat_digits n) = Some n"
  by (simp add: digits_value_def nat_digits_ne nat_digits_digits nat_digits_value)

lemma digit_not_blank: "is_digit c \<Longrightarrow> \<not> is_blank c"
  by (auto simp: is_digit_def is_blank_def)

lemma strip_blanks_digits: "list_all is_digit ds \<Longrightarrow> strip_blanks ds = ds"
proof -
  assume d: "list_all is_digit ds"
  then have "dropWhile is_blank ds = ds"
    by (cases ds) (auto dest: digit_not_blank)
  moreover from d have "dropWhile is_blank (rev ds) = rev ds"
    by (cases "rev ds") (auto simp: list_all_iff dest: digit_not_blank)
  ultimately show ?thesis by (simp add: strip_blanks_def)
qed

lemma strip_blanks_minus_digits:
  "list_all is_digit ds \<Longrightarrow> ds \<noteq> [] \<Longrightarrow> strip_blanks (CHR ''-'' # ds) = CHR ''-'' # ds"
proof -
  assume d: "list_all is_digit ds" and ne: "ds \<noteq> []"
  have "\<not> is_blank (CHR ''-'')" by (simp add: is_blank_def)
  moreover from d ne have "dropWhile is_blank (rev ds @ [CHR ''-'']) = rev ds @ [CHR ''-'']"
    by (cases "rev ds") (auto simp: list_all_iff dest: digit_not_blank)
  ultimately show ?thesis by (simp add: strip_blanks_def)
qed

text \<open>Parsing the decimal text of an integer gives the integer back.\<close>

lemma parse_int_to_string: "parse_int (int_to_string i) = Some i"
proof (cases "i < 0")
  case True
  then show ?thesis
    by (simp add: int_to_string_def parse_int_def strip_blanks_minus_digits nat_digits_digits
        nat_digits_ne digits_value_nat_digits)
next
  case False
  obtain c ds where cd: "nat_digits (nat i) = c # ds"
    using nat_digits_ne by (cases "nat_digits (nat i)") auto
  from nat_digits_digits [of "nat i"] cd have "is_digit c" by simp
  then have "c \<noteq> CHR ''-''" "c \<noteq> CHR ''+''" by (auto simp: is_digit_def)
  moreover have "strip_blanks (c # ds) = c # ds"
    using strip_blanks_digits [OF nat_digits_digits [of "nat i"]] cd by simp
  moreover have "digits_value (c # ds) = Some (nat i)"
    using digits_value_nat_digits [of "nat i"] cd by simp
  ultimately show ?thesis
    using False cd by (simp add: int_to_string_def parse_int_def)
qed

section \<open>Association lists keyed by a field\<close>

lemma map_of_key_filter:
  "map_of (map (\<lambda>q. (f q, q)) (filter (\<lambda>r. f r \<noteq> k) xs)) = (map_of (map (\<lambda>q. (f q, q)) xs))(k := None)"
  by (induction xs) (auto simp: fun_eq_iff)

lemma map_of_key_append_fresh:
  "f x \<notin> f ` set xs \<Longrightarrow> map_of (map (\<lambda>q. (f q, q)) (xs @ [x])) = (map_of (map (\<lambda>q. (f q, q)) xs))(f x \<mapsto> x)"
  by (induction xs) (auto simp: fun_eq_iff)

end
