(* ===== verification/Store.thy ===== *)
theory Store
  imports Prelude
begin

text \<open>
  The data store: the \<open>Question\<close> and \<open>Category\<close> tables and the ORM calls the
  handlers make on them (\<open>models.py\<close>, which is not part of the sources and is modelled
  from the data model of the specification).  The store is a record of the two tables
  in storage order and the state of the question-id sequence.  Queries are functions of
  the store; \<open>insert\<close> and \<open>delete\<close> return the new store.  A value bound into a
  query or stored into a column is converted the way the store's typed columns convert
  it; a conversion that fails raises \<open>DataError\<close>.
\<close>

section \<open>Rows and the store\<close>

record Question =
  qid :: int
  question :: "string option"
  answer :: "string option"
  category :: "int option"
  difficulty :: "int option"

record Category =
  cid :: int
  ctype :: string

record db =
  questions :: "Question list"
  categories :: "Category list"
  next_id :: int

text \<open>Integer columns and the id sequence are 32-bit.\<close>

definition int4_max :: int where
  "int4_max = 2 ^ 31 - 1"

definition in_int4 :: "int \<Rightarrow> bool" where
  "in_int4 i \<longleftrightarrow> - (2 ^ 31) \<le> i \<and> i \<le> int4_max"

section \<open>Column conversions\<close>

text \<open>A value stored into a text column: strings as they are, integers and booleans as
  their text; \<open>None\<close> is NULL.\<close>

fun column_str :: "pyval \<Rightarrow> string option result" where
  "column_str PNone = Inr None"
| "column_str (PStr s) = Inr (Some s)"
| "column_str (PInt i) = Inr (Some (int_to_string i))"
| "column_str (PBool b) = Inr (Some (if b then ''true'' else ''false''))"
| "column_str _ = Inl DataError"

text \<open>A value stored into (or compared with) an integer column: integers in range, and
  strings in the integer input syntax.\<close>

definition int4_value :: "int \<Rightarrow> int result" where
  "int4_value i = (if in_int4 i then Inr i else Inl DataError)"

fun column_int :: "pyval \<Rightarrow> int option result" where
  "column_int PNone = Inr None"
| "column_int (PInt i) = map_sum id Some (int4_value i)"
| "column_int (PStr s) =
     (case parse_int s of None \<Rightarrow> Inl DataError | Some i \<Rightarrow> map_sum id Some (int4_value i))"
| "column_int _ = Inl DataError"

section \<open>Queries\<close>

text \<open>\<open>Question.query.order_by(Question.id).all()\<close>\<close>

definition query_all_ordered :: "db \<Rightarrow> Question list" where
  "query_all_ordered s = sort_key qid (questions s)"

text \<open>
  \<open>Question.query.filter(Question.category == v).all()\<close>, in storage order.  The ORM
  turns \<open>== None\<close> into \<open>IS NULL\<close>; any other value is bound as an integer, and a
  value that does not convert makes the query fail.
\<close>

definition query_by_category :: "db \<Rightarrow> pyval \<Rightarrow> Question list result" where
  "query_by_category s v =
     (case v of
        PNone \<Rightarrow> Inr (filter (\<lambda>q. category q = None) (questions s))
      | PInt i \<Rightarrow> Inr (filter (\<lambda>q. category q = Some i) (questions s))
      | PStr t \<Rightarrow>
          (case parse_int t of
             None \<Rightarrow> Inl DataError
           | Some i \<Rightarrow> Inr (filter (\<lambda>q. category q = Some i) (questions s)))
      | _ \<Rightarrow> Inl DataError)"

text \<open>\<open>Question.query.filter(Question.id == i).one_or_none()\<close>\<close>

definition query_one_or_none :: "db \<Rightarrow> int \<Rightarrow> Question option result" where
  "query_one_or_none s i =
     (case filter (\<lambda>q. qid q = i) (questions s) of
        [] \<Rightarrow> Inr None
      | [q] \<Rightarrow> Inr (Some q)
      | _ \<Rightarrow> Inl MultipleResultsFound)"

text \<open>\<open>Category.query.all()\<close>\<close>

definition query_categories :: "db \<Rightarrow> Category list" where
  "query_categories s = categories s"

section \<open>Changes\<close>

text \<open>
  \<open>Question(question=.., answer=.., difficulty=.., category=..).insert()\<close>: the values
  are converted into the columns, the id is the next value of the sequence, and the row
  is appended.  A failed conversion or an exhausted sequence rolls the insert back.
\<close>

definition insert_question ::
  "db \<Rightarrow> pyval \<Rightarrow> pyval \<Rightarrow> pyval \<Rightarrow> pyval \<Rightarrow> (Question \<times> db) result" where
  "insert_question s q a d c =
     (case (column_str q, column_str a, column_int d, column_int c) of
        (Inr q', Inr a', Inr d', Inr c') \<Rightarrow>
          if next_id s \<le> int4_max then
            (let row = \<lparr>qid = next_id s, question = q', answer = a', category = c',
                        difficulty = d'\<rparr>
             in Inr (row, s\<lparr>questions := questions s @ [row], next_id := next_id s + 1\<rparr>))
          else Inl DataError
      | _ \<Rightarrow> Inl DataError)"

text \<open>\<open>question.delete()\<close>: the row with that primary key goes.\<close>

definition delete_row :: "db \<Rightarrow> Question \<Rightarrow> db" where
  "delete_row s q = s\<lparr>questions := filter (\<lambda>r. qid r \<noteq> qid q) (questions s)\<rparr>"

section \<open>The store's invariant\<close>

text \<open>
  Ids are a primary key drawn from a sequence: they are distinct, and every stored id is
  below the next value of the sequence.
\<close>

definition wf_db :: "db \<Rightarrow> bool" where
  "wf_db s \<longleftrightarrow> distinct (map qid (questions s)) \<and> (\<forall>q\<in>set (questions s). qid q < next_id s)"

definition has_id :: "db \<Rightarrow> int \<Rightarrow> bool" where
  "has_id s i \<longleftrightarrow> i \<in> qid ` set (questions s)"

text \<open>The store's question table as an abstract map from ids to rows.\<close>

definition store_map :: "db \<Rightarrow> int \<rightharpoonup> Question" where
  "store_map s = map_of (map (\<lambda>q. (qid q, q)) (questions s))"

section \<open>Formatting\<close>

definition opt_str :: "string option \<Rightarrow> pyval" where
  "opt_str v = (case v of None \<Rightarrow> PNone | Some t \<Rightarrow> PStr t)"

definition opt_int :: "int option \<Rightarrow> pyval" where
  "opt_int v = (case v of None \<Rightarrow> PNone | Some i \<Rightarrow> PInt i)"

text \<open>\<open>question.format()\<close>\<close>

definition format_question :: "Question \<Rightarrow> pyval" where
  "format_question q =
     PDict [(PStr ''id'', PInt (qid q)), (PStr ''question'', opt_str (question q)),
            (PStr ''answer'', opt_str (answer q)), (PStr ''category'', opt_int (category q)),
            (PStr ''difficulty'', opt_int (difficulty q))]"

section \<open>Facts about the store\<close>

lemma filter_distinct_key:
  "distinct (map f xs) \<Longrightarrow> x \<in> set xs \<Longrightarrow> filter (\<lambda>y. f y = f x) xs = [x]"
  by (induction xs) (auto simp: filter_empty_conv image_iff)

lemma query_one_or_none_missing:
  "\<not> has_id s i \<Longrightarrow> query_one_or_none s i = Inr None"
proof -
  assume "\<not> has_id s i"
  then have "filter (\<lambda>q. qid q = i) (questions s) = []"
    by (auto simp: has_id_def filter_empty_conv)
  then show ?thesis by (simp add: query_one_or_none_def)
qed

lemma query_one_or_none_present:
  "wf_db s \<Longrightarrow> q \<in> set (questions s) \<Longrightarrow> query_one_or_none s (qid q) = Inr (Some q)"
  by (simp add: query_one_or_none_def wf_db_def filter_distinct_key)

lemma insert_question_Inr:
  assumes "column_str q = Inr q'" and "column_str a = Inr a'" and "column_int d = Inr d'"
    and "column_int c = Inr c'" and "next_id s \<le> int4_max"
  shows "insert_question s q a d c =
           Inr (\<lparr>qid = next_id s, question = q', answer = a', category = c', difficulty = d'\<rparr>,
                s\<lparr>questions := questions s @ [\<lparr>qid = next_id s, question = q', answer = a',
                                                category = c', difficulty = d'\<rparr>],
                  next_id := next_id s + 1\<rparr>)"
  using assms by (simp add: insert_question_def Let_def)

lemma insert_question_row:
  "insert_question s q a d c = Inr (row, s') \<Longrightarrow>
   qid row = next_id s \<and> questions s' = questions s @ [row] \<and> next_id s' = next_id s + 1"
  by (auto simp: insert_question_def Let_def split: sum.splits if_splits)

lemma insert_question_wf:
  assumes ins: "insert_question s q a d c = Inr (row, s')" and wf: "wf_db s"
  shows "wf_db s'"
proof -
  from insert_question_row [OF ins]
  have r: "qid row = next_id s" "questions s' = questions s @ [row]" "next_id s' = next_id s + 1"
    by simp_all
  from wf have "next_id s \<notin> qid ` set (questions s)"
    by (auto simp: wf_db_def)
  with wf r show ?thesis by (auto simp: wf_db_def)
qed

lemma insert_question_exhausted: "int4_max < next_id s \<Longrightarrow> insert_question s q a d c = Inl DataError"
  by (simp add: insert_question_def split: sum.splits)

lemma delete_row_next_id [simp]: "next_id (delete_row s q) = next_id s"
  by (simp add: delete_row_def)

lemma has_id_delete_row: "has_id (delete_row s q) i \<longleftrightarrow> has_id s i \<and> i \<noteq> qid q"
  by (auto simp: has_id_def delete_row_def)

section \<open>The table refines a map\<close>

lemma store_map_delete_row: "store_map (delete_row s q) = (store_map s)(qid q := None)"
  by (simp add: store_map_def delete_row_def map_of_key_filter)

lemma store_map_insert:
  assumes ins: "insert_question s q a d c = Inr (row, s')" and wf: "wf_db s"
  shows "store_map s (qid row) = None \<and> store_map s' = (store_map s)(qid row \<mapsto> row)"
proof -
  from insert_question_row [OF ins]
  have r: "qid row = next_id s" "questions s' = questions s @ [row]" by simp_all
  from wf r have fresh: "qid row \<notin> qid ` set (questions s)" by (auto simp: wf_db_def)
  then have "store_map s (qid row) = None"
    by (simp add: store_map_def map_of_eq_None_iff image_image)
  moreover have "store_map s' = (store_map s)(qid row \<mapsto> row)"
    using map_of_key_append_fresh [OF fresh] r by (simp add: store_map_def)
  ultimately show ?thesis ..
qed

lemma store_map_lookup: "wf_db s \<Longrightarrow> query_one_or_none s i = Inr (store_map s i)"
proof -
  assume wf: "wf_db s"
  show ?thesis
  proof (cases "has_id s i")
    case True
    then obtain q where q: "q \<in> set (questions s)" "qid q = i" by (auto simp: has_id_def)
    from wf have "distinct (map fst (map (\<lambda>q. (qid q, q)) (questions s)))"
      by (simp add: wf_db_def comp_def)
    then have "store_map s i = Some q"
      using q by (auto simp: store_map_def intro: map_of_is_SomeI)
    with query_one_or_none_present [OF wf q(1)] q show ?thesis by simp
  next
    case False
    then have "store_map s i = None"
      by (auto simp: store_map_def has_id_def map_of_eq_None_iff)
    with query_one_or_none_missing [OF False] show ?thesis by simp
  qed
qed

end
