(* ===== verification/Quiz.thy ===== *)
theory Quiz
  imports Store
begin

text \<open>
  The quiz endpoint \<open>question_generator\<close> (\<open>POST /quizzes\<close>) and its rejection
  sampling loop.  The random source is explicit: \<open>rnd k\<close> is the raw value behind the
  \<open>k\<close>-th call of \<open>random.randrange(0, total, 1)\<close> in the request, and the call returns
  it modulo \<open>total\<close>, so every sequence of draws the library can produce is some
  \<open>rnd\<close>.  The loop has no bound on its iterations; it is a \<open>partial_function\<close> in
  the option monad, \<open>None\<close> meaning that the request never returns.
\<close>

type_synonym rand = "nat \<Rightarrow> nat"

datatype quiz_result = Served Question | Exhausted

section \<open>The handler's helpers\<close>

text \<open>\<open>random.randrange(0, stop, 1)\<close>: an empty range raises \<open>ValueError\<close>.\<close>

definition randrange :: "nat \<Rightarrow> nat \<Rightarrow> nat result" where
  "randrange stop r = (if stop = 0 then Inl ValueError else Inr (r mod stop))"

text \<open>\<open>choose_random_question()\<close>: the \<open>k\<close>-th draw indexes the pool.\<close>

definition choose_random_question :: "rand \<Rightarrow> nat \<Rightarrow> Question list \<Rightarrow> Question result" where
  "choose_random_question rnd k pool =
     (case randrange (length pool) (rnd k) of Inl e \<Rightarrow> Inl e | Inr y \<Rightarrow> Inr (pool ! y))"

text \<open>\<open>check_in_previous(question)\<close>: a flag set by a scan of the whole list.\<close>

definition check_in_previous :: "pyval \<Rightarrow> Question \<Rightarrow> bool result" where
  "check_in_previous previous_questions q =
     (case py_iter previous_questions of
        Inl e \<Rightarrow> Inl e
      | Inr xs \<Rightarrow> Inr (fold (\<lambda>p been_used. if py_eq_int p (qid q) then True else been_used)
                          xs False))"

section \<open>The selection loop\<close>

text \<open>
  One iteration of \<open>while (check_in_previous(question))\<close>: draw again, then return the
  exhaustion signal if \<open>len(previous_questions) == total_questions\<close>, else test the new
  draw.  Argument \<open>k\<close> numbers the next draw.
\<close>

partial_function (option) quiz_loop ::
  "rand \<Rightarrow> Question list \<Rightarrow> pyval \<Rightarrow> nat \<Rightarrow> Question \<Rightarrow> quiz_result result option" where
  "quiz_loop rnd pool previous_questions k q =
     (case check_in_previous previous_questions q of
        Inl e \<Rightarrow> Some (Inl e)
      | Inr been_used \<Rightarrow>
          if \<not> been_used then Some (Inr (Served q))
          else
            (case choose_random_question rnd k pool of
               Inl e \<Rightarrow> Some (Inl e)
             | Inr q' \<Rightarrow>
                 (case py_len previous_questions of
                    Inl e \<Rightarrow> Some (Inl e)
                  | Inr n \<Rightarrow>
                      if n = length pool then Some (Inr Exhausted)
                      else quiz_loop rnd pool previous_questions (Suc k) q')))"

text \<open>The first draw, then the loop.\<close>

definition quiz_select :: "rand \<Rightarrow> Question list \<Rightarrow> pyval \<Rightarrow> quiz_result result option" where
  "quiz_select rnd pool previous_questions =
     (case choose_random_question rnd 0 pool of
        Inl e \<Rightarrow> Some (Inl e)
      | Inr q \<Rightarrow> quiz_loop rnd pool previous_questions 1 q)"

text \<open>The two JSON answers of the endpoint.\<close>

fun quiz_response :: "quiz_result \<Rightarrow> pyval" where
  "quiz_response (Served q) =
     PDict [(PStr ''success'', PBool True), (PStr ''question'', format_question q)]"
| "quiz_response Exhausted = PDict [(PStr ''success'', PBool True)]"

section \<open>The endpoint\<close>

text \<open>
  \<open>question_generator()\<close>: both fields must be present (else \<open>abort(400)\<close>); the
  category id 0 selects every question in id order, any other id the questions of that
  category in storage order.  Nothing is caught: an exception becomes a 500 response.
\<close>

definition question_generator :: "db \<Rightarrow> pyval \<Rightarrow> rand \<Rightarrow> pyval result option" where
  "question_generator s body rnd =
     (case (py_get body ''quiz_category'', py_get body ''previous_questions'') of
        (Inl e, _) \<Rightarrow> Some (Inl e)
      | (_, Inl e) \<Rightarrow> Some (Inl e)
      | (Inr quiz_category, Inr previous_questions) \<Rightarrow>
          if is_none quiz_category then Some (Inl (HTTPException 400))
          else if is_none previous_questions then Some (Inl (HTTPException 400))
          else
            (case py_getitem quiz_category ''id'' of
               Inl e \<Rightarrow> Some (Inl e)
             | Inr cat_id \<Rightarrow>
                 (case (if py_eq_int cat_id 0 then Inr (query_all_ordered s)
                        else query_by_category s cat_id) of
                    Inl e \<Rightarrow> Some (Inl e)
                  | Inr selection \<Rightarrow>
                      map_option (map_sum id quiz_response)
                        (quiz_select rnd selection previous_questions))))"

declare quiz_loop.simps [code]

section \<open>What the selection promises\<close>

text \<open>
  The contract of the selector in the specification: a served question comes from the
  pool and is not among the previously served ids; the exhaustion signal means that every
  question of the pool has been served.  \<open>served_before xs q\<close> is the test the handler
  performs (\<open>p == question['id']\<close> for some item \<open>p\<close> of the list), \<open>drawn rnd pool k\<close>
  the question the \<open>k\<close>-th draw picks, and \<open>fair_draws\<close> says that every index of the
  pool is drawn again after the first draw, as a uniform source does with probability 1.
\<close>

definition served_before :: "pyval list \<Rightarrow> Question \<Rightarrow> bool" where
  "served_before xs q \<longleftrightarrow> (\<exists>p\<in>set xs. py_eq_int p (qid q))"

definition drawn :: "rand \<Rightarrow> Question list \<Rightarrow> nat \<Rightarrow> Question" where
  "drawn rnd pool k = pool ! (rnd k mod length pool)"

definition fair_draws :: "rand \<Rightarrow> nat \<Rightarrow> bool" where
  "fair_draws rnd n \<longleftrightarrow> (\<forall>j<n. \<exists>k\<ge>1. rnd k mod n = j)"

fun quiz_spec :: "Question list \<Rightarrow> pyval list \<Rightarrow> quiz_result \<Rightarrow> bool" where
  "quiz_spec pool xs (Served q) \<longleftrightarrow> q \<in> set pool \<and> \<not> served_before xs q"
| "quiz_spec pool xs Exhausted \<longleftrightarrow> (\<forall>q\<in>set pool. served_before xs q)"

text \<open>
  The list a well-behaved client sends: the ids of distinct questions of the pool, each
  once, in a pool whose ids are distinct.
\<close>

definition client_previous :: "Question list \<Rightarrow> pyval list \<Rightarrow> bool" where
  "client_previous pool xs \<longleftrightarrow>
     distinct (map qid pool) \<and> distinct xs \<and> set xs \<subseteq> (\<lambda>q. PInt (qid q)) ` set pool"

text \<open>Request bodies and rows used by the witnesses below.\<close>

abbreviation quiz_body :: "int \<Rightarrow> pyval \<Rightarrow> pyval" where
  "quiz_body c prev \<equiv>
     PDict [(PStr ''quiz_category'', PDict [(PStr ''id'', PInt c)]), (PStr ''previous_questions'', prev)]"

abbreviation ex_question :: "int \<Rightarrow> int \<Rightarrow> Question" where
  "ex_question i c \<equiv> \<lparr>qid = i, question = None, answer = None, category = Some c, difficulty = None\<rparr>"

abbreviation ex_db :: db where
  "ex_db \<equiv> \<lparr>questions = [ex_question 1 3, ex_question 2 3], categories = [], next_id = 3\<rparr>"

abbreviation ex_pool :: "Question list" where
  "ex_pool \<equiv> [ex_question 1 3, ex_question 2 3]"

section \<open>The loop, step by step\<close>

lemma check_in_previous_iff:
  "py_iter prev = Inr xs \<Longrightarrow> check_in_previous prev q = Inr (served_before xs q)"
  by (simp add: check_in_previous_def served_before_def fold_flag)

lemma choose_random_question_nonempty:
  "pool \<noteq> [] \<Longrightarrow> choose_random_question rnd k pool = Inr (drawn rnd pool k)"
  by (simp add: choose_random_question_def randrange_def drawn_def)

lemma choose_random_question_empty: "choose_random_question rnd k [] = Inl ValueError"
  by (simp add: choose_random_question_def randrange_def)

lemma drawn_in_pool: "pool \<noteq> [] \<Longrightarrow> drawn rnd pool k \<in> set pool"
  by (simp add: drawn_def)

lemma quiz_select_unfold:
  "pool \<noteq> [] \<Longrightarrow> quiz_select rnd pool prev = quiz_loop rnd pool prev 1 (drawn rnd pool 0)"
  by (simp add: quiz_select_def choose_random_question_nonempty)

lemma quiz_loop_unseen:
  "py_iter prev = Inr xs \<Longrightarrow> \<not> served_before xs q \<Longrightarrow>
   quiz_loop rnd pool prev k q = Some (Inr (Served q))"
  by (simp add: quiz_loop.simps [of rnd pool prev k q] check_in_previous_iff)

lemma quiz_loop_seen:
  "py_iter prev = Inr xs \<Longrightarrow> pool \<noteq> [] \<Longrightarrow> served_before xs q \<Longrightarrow>
   quiz_loop rnd pool prev k q =
     (if length xs = length pool then Some (Inr Exhausted)
      else quiz_loop rnd pool prev (Suc k) (drawn rnd pool k))"
  by (simp add: quiz_loop.simps [of rnd pool prev k q] check_in_previous_iff
      choose_random_question_nonempty py_len_iter)

text \<open>From a served question at draw \<open>k\<close>, the loop returns the first unserved draw
  \<open>m \<ge> k\<close>, when the exhaustion test does not fire.\<close>

lemma quiz_loop_first_unseen:
  assumes it: "py_iter prev = Inr xs" and ne: "pool \<noteq> []"
    and len: "length xs \<noteq> length pool"
    and stop: "\<not> served_before xs (drawn rnd pool m)"
    and before: "\<forall>j. k \<le> j \<and> j < m \<longrightarrow> served_before xs (drawn rnd pool j)"
    and km: "k \<le> m" and q: "served_before xs q"
  shows "quiz_loop rnd pool prev k q = Some (Inr (Served (drawn rnd pool m)))"
  using km before q
proof (induction "m - k" arbitrary: k q)
  case 0
  then have "k = m" by simp
  with it ne len stop "0.prems"(3) show ?case
    by (simp add: quiz_loop_seen quiz_loop_unseen)
next
  case (Suc d)
  then have "k < m" by simp
  with Suc.prems(2) have seen_k: "served_before xs (drawn rnd pool k)" by simp
  have "quiz_loop rnd pool prev (Suc k) (drawn rnd pool k) = Some (Inr (Served (drawn rnd pool m)))"
    using Suc.hyps(1) [of "Suc k"] Suc.hyps(2) Suc.prems(2) \<open>k < m\<close> seen_k by simp
  then show ?case
    using it ne len Suc.prems(3) by (simp add: quiz_loop_seen)
qed

text \<open>Partial correctness by fixpoint induction: a run that returns from a served
  question under a failing exhaustion test has met an unserved draw.\<close>

lemma quiz_loop_escape:
  assumes ret: "quiz_loop rnd pool prev k q = Some r"
  shows "py_iter prev = Inr xs \<longrightarrow> pool \<noteq> [] \<longrightarrow> length xs \<noteq> length pool \<longrightarrow>
         served_before xs q \<longrightarrow> (\<exists>j\<ge>k. \<not> served_before xs (drawn rnd pool j))"
proof (rule quiz_loop.raw_induct [where P = "\<lambda>rnd pool prev k q r.
         py_iter prev = Inr xs \<longrightarrow> pool \<noteq> [] \<longrightarrow> length xs \<noteq> length pool \<longrightarrow>
         served_before xs q \<longrightarrow> (\<exists>j\<ge>k. \<not> served_before xs (drawn rnd pool j))", OF _ ret],
       goal_cases)
  case (1 f rnd pool prev k q r)
  show ?case
  proof (intro impI)
    assume it: "py_iter prev = Inr xs" and ne: "pool \<noteq> []"
      and len: "length xs \<noteq> length pool" and sq: "served_before xs q"
    with "1"(2) have call: "f rnd pool prev (Suc k) (drawn rnd pool k) = Some r"
      by (simp add: check_in_previous_iff choose_random_question_nonempty py_len_iter)
    show "\<exists>j\<ge>k. \<not> served_before xs (drawn rnd pool j)"
    proof (cases "served_before xs (drawn rnd pool k)")
      case True
      with "1"(1) [OF call] it ne len
      obtain j where "Suc k \<le> j" "\<not> served_before xs (drawn rnd pool j)"
        by blast
      then show ?thesis by (intro exI [of _ j]) simp
    next
      case False
      then show ?thesis by blast
    qed
  qed
qed

lemma quiz_loop_diverges:
  assumes "py_iter prev = Inr xs" and "pool \<noteq> []" and "length xs \<noteq> length pool"
    and "\<forall>j\<ge>k. served_before xs (drawn rnd pool j)" and "served_before xs q"
  shows "quiz_loop rnd pool prev k q = None"
  using assms quiz_loop_escape [of rnd pool prev k q]
  by (cases "quiz_loop rnd pool prev k q") auto


section \<open>Helper facts of the selector\<close>

lemma quiz_loop_returns:
  assumes ret: "quiz_loop rnd pool prev k q = Some r"
  shows "py_iter prev = Inr xs \<longrightarrow> pool \<noteq> [] \<longrightarrow> q \<in> set pool \<longrightarrow>
         (\<exists>q'. r = Inr (Served q') \<and> q' \<in> set pool \<and> \<not> served_before xs q') \<or>
         (r = Inr Exhausted \<and> length xs = length pool)"
proof (rule quiz_loop.raw_induct [where P = "\<lambda>rnd pool prev k q r.
         py_iter prev = Inr xs \<longrightarrow> pool \<noteq> [] \<longrightarrow> q \<in> set pool \<longrightarrow>
         (\<exists>q'. r = Inr (Served q') \<and> q' \<in> set pool \<and> \<not> served_before xs q') \<or>
         (r = Inr Exhausted \<and> length xs = length pool)", OF _ ret],
       goal_cases)
  case (1 f rnd pool prev k q r)
  show ?case
  proof (intro impI)
    assume it: "py_iter prev = Inr xs" and ne: "pool \<noteq> []" and q: "q \<in> set pool"
    show "(\<exists>q'. r = Inr (Served q') \<and> q' \<in> set pool \<and> \<not> served_before xs q') \<or>
          (r = Inr Exhausted \<and> length xs = length pool)"
    proof (cases "served_before xs q")
      case False
      with "1"(2) it q show ?thesis by (auto simp: check_in_previous_iff)
    next
      case True
      show ?thesis
      proof (cases "length xs = length pool")
        case True
        with "1"(2) it ne \<open>served_before xs q\<close> show ?thesis
          by (simp add: check_in_previous_iff choose_random_question_nonempty py_len_iter)
      next
        case False
        with "1"(2) it ne \<open>served_before xs q\<close>
        have "f rnd pool prev (Suc k) (drawn rnd pool k) = Some r"
          by (simp add: check_in_previous_iff choose_random_question_nonempty py_len_iter)
        from "1"(1) [OF this] it ne drawn_in_pool show ?thesis by blast
      qed
    qed
  qed
qed

lemma quiz_select_returns:
  assumes "quiz_select rnd pool prev = Some r" and "py_iter prev = Inr xs" and "pool \<noteq> []"
  shows "(\<exists>q. r = Inr (Served q) \<and> q \<in> set pool \<and> \<not> served_before xs q) \<or>
         (r = Inr Exhausted \<and> length xs = length pool)"
  using assms quiz_loop_returns [of rnd pool prev 1 "drawn rnd pool 0" r xs]
  by (simp add: quiz_select_unfold drawn_in_pool)

lemma quiz_select_on_unseen_draw:
  assumes ne: "pool \<noteq> []" and it: "py_iter prev = Inr xs"
    and k: "\<not> served_before xs (drawn rnd pool k)"
  shows "\<exists>r. quiz_select rnd pool prev = Some r"
proof -
  define m where "m = (LEAST m. \<not> served_before xs (drawn rnd pool m))"
  have stop: "\<not> served_before xs (drawn rnd pool m)"
    unfolding m_def using k by (rule LeastI)
  have before: "\<forall>j<m. served_before xs (drawn rnd pool j)"
    unfolding m_def using not_less_Least by blast
  show ?thesis
  proof (cases "m = 0")
    case True
    with stop it ne show ?thesis by (simp add: quiz_select_unfold quiz_loop_unseen)
  next
    case False
    show ?thesis
    proof (cases "length xs = length pool")
      case True
      with it ne show ?thesis
        by (cases "served_before xs (drawn rnd pool 0)")
           (simp_all add: quiz_select_unfold quiz_loop_unseen quiz_loop_seen)
    next
      case len: False
      from False before have "served_before xs (drawn rnd pool 0)" by simp
      with it ne len stop before False show ?thesis
        by (simp add: quiz_select_unfold quiz_loop_first_unseen)
    qed
  qed
qed

lemma fair_draws_identity: "0 < n \<Longrightarrow> fair_draws (\<lambda>k. k) n"
  unfolding fair_draws_def
proof (intro allI impI)
  fix j :: nat
  assume "0 < n" and "j < n"
  then show "\<exists>k\<ge>1. k mod n = j" by (intro exI [of _ "j + n"]) simp
qed

lemma quiz_select_returns_if_fair:
  assumes ne: "pool \<noteq> []" and it: "py_iter prev = Inr xs"
    and fair: "fair_draws rnd (length pool)"
    and open_or_full: "(\<exists>q\<in>set pool. \<not> served_before xs q) \<or> length xs = length pool"
  shows "\<exists>r. quiz_select rnd pool prev = Some r"
  using open_or_full
proof
  assume "\<exists>q\<in>set pool. \<not> served_before xs q"
  then obtain j where j: "j < length pool" "\<not> served_before xs (pool ! j)"
    by (auto simp: in_set_conv_nth)
  with fair obtain k where "rnd k mod length pool = j"
    unfolding fair_draws_def by blast
  with j have "\<not> served_before xs (drawn rnd pool k)" by (simp add: drawn_def)
  with ne it show ?thesis by (rule quiz_select_on_unseen_draw)
next
  assume len: "length xs = length pool"
  with ne it show ?thesis
    by (cases "served_before xs (drawn rnd pool 0)")
       (simp_all add: quiz_select_unfold quiz_loop_unseen quiz_loop_seen)
qed

lemma client_previous_served_iff:
  assumes "client_previous pool xs"
  shows "served_before xs q \<longleftrightarrow> PInt (qid q) \<in> set xs"
proof
  assume "served_before xs q"
  then obtain p where p: "p \<in> set xs" "py_eq_int p (qid q)" by (auto simp: served_before_def)
  with assms have "p = PInt (qid q)" by (auto simp: client_previous_def)
  with p show "PInt (qid q) \<in> set xs" by simp
next
  assume "PInt (qid q) \<in> set xs"
  then show "served_before xs q" by (force simp: served_before_def)
qed

lemma client_previous_length_iff:
  assumes c: "client_previous pool xs"
  shows "length xs = length pool \<longleftrightarrow> (\<forall>q\<in>set pool. served_before xs q)"
proof -
  let ?f = "\<lambda>q. PInt (qid q)"
  from c have dq: "distinct (map qid pool)" and dx: "distinct xs" and sub: "set xs \<subseteq> ?f ` set pool"
    by (auto simp: client_previous_def)
  from dq have inj: "inj_on ?f (set pool)" by (auto simp: inj_on_def distinct_map)
  from dq have "card (?f ` set pool) = length pool"
    using inj by (simp add: card_image distinct_card distinct_map)
  moreover from dx have "card (set xs) = length xs" by (simp add: distinct_card)
  ultimately have "length xs = length pool \<longleftrightarrow> set xs = ?f ` set pool"
    using sub by (metis card_subset_eq finite_imageI finite_set)
  also have "\<dots> \<longleftrightarrow> (\<forall>q\<in>set pool. served_before xs q)"
    using sub client_previous_served_iff [OF c] by blast
  finally show ?thesis .
qed

lemma quiz_select_client_total:
  assumes ne: "pool \<noteq> []" and c: "client_previous pool xs" and fair: "fair_draws rnd (length pool)"
  shows "\<exists>r. quiz_select rnd pool (PList xs) = Some r"
proof -
  have it: "py_iter (PList xs) = Inr xs" by simp
  have "(\<exists>q\<in>set pool. \<not> served_before xs q) \<or> length xs = length pool"
    using client_previous_length_iff [OF c] by blast
  then show ?thesis using quiz_select_returns_if_fair [OF ne it fair] by blast
qed

lemma question_generator_category:
  "c \<noteq> 0 \<Longrightarrow> prev \<noteq> PNone \<Longrightarrow>
   question_generator s (quiz_body c prev) rnd =
     map_option (map_sum id quiz_response)
       (quiz_select rnd (filter (\<lambda>q. category q = Some c) (questions s)) prev)"
  by (simp add: question_generator_def query_by_category_def is_none_def)

section \<open>Properties of the selector and the endpoint\<close>

text \<open>C1. Soundness of the quiz selector: whenever the selection returns a question, that question belongs to the eligible pool and its id is not among the previously served ones.\<close>

theorem quiz_select_sound:
  assumes "quiz_select rnd pool prev = Some (Inr (Served q))" and "py_iter prev = Inr xs"
  shows "quiz_spec pool xs (Served q)"
proof -
  have "pool \<noteq> []"
    using assms(1) by (cases pool) (auto simp: quiz_select_def choose_random_question_empty)
  with assms quiz_select_returns show ?thesis by fastforce
qed

theorem quiz_select_sound_witness:
  "quiz_select (\<lambda>k. k) [ex_question 1 3, ex_question 2 3] (PList [PInt 1]) = Some (Inr (Served (ex_question 2 3)))
   \<and> py_iter (PList [PInt 1]) = Inr [PInt 1]
   \<and> quiz_spec [ex_question 1 3, ex_question 2 3] [PInt 1] (Served (ex_question 2 3))"
proof -
  have run: "quiz_select (\<lambda>k. k) [ex_question 1 3, ex_question 2 3] (PList [PInt 1]) = Some (Inr (Served (ex_question 2 3)))"
    by (simp add: quiz_select_def choose_random_question_def randrange_def quiz_loop.simps
        check_in_previous_def)
  show ?thesis using run quiz_select_sound [OF run] by simp
qed

text \<open>C2. Refinement of the selector contract: for a previous-questions list as the client sends it (ids of distinct pool questions) and a fair source of random draws, the selection returns, and its answer satisfies the contract: an unserved pool question, or the exhaustion signal exactly when the whole pool has been served.\<close>

theorem quiz_select_refines_spec:
  assumes ne: "pool \<noteq> []" and c: "client_previous pool xs"
    and fair: "fair_draws rnd (length pool)"
  shows "\<exists>r. quiz_select rnd pool (PList xs) = Some (Inr r) \<and> quiz_spec pool xs r"
proof -
  have it: "py_iter (PList xs) = Inr xs" by simp
  from quiz_select_client_total [OF ne c fair]
  obtain r where r: "quiz_select rnd pool (PList xs) = Some r" by blast
  from quiz_select_returns [OF r it ne] show ?thesis
  proof
    assume "\<exists>q. r = Inr (Served q) \<and> q \<in> set pool \<and> \<not> served_before xs q"
    with r show ?thesis by auto
  next
    assume "r = Inr Exhausted \<and> length xs = length pool"
    with r client_previous_length_iff [OF c] show ?thesis by auto
  qed
qed

theorem quiz_select_refines_spec_witness:
  "ex_pool \<noteq> [] \<and> client_previous ex_pool [PInt 1] \<and> fair_draws (\<lambda>k. k) (length ex_pool)
   \<and> (\<exists>r. quiz_select (\<lambda>k. k) ex_pool (PList [PInt 1]) = Some (Inr r) \<and> quiz_spec ex_pool [PInt 1] r)"
proof -
  have c: "client_previous ex_pool [PInt 1]" by (simp add: client_previous_def)
  show ?thesis
    using quiz_select_refines_spec [of ex_pool "[PInt 1]" "\<lambda>k. k"] c
      fair_draws_identity [of "length ex_pool"]
    by simp
qed

text \<open>C3. Termination of the rejection loop: under fair random draws, the selection returns exactly when some pool question is unserved or the length of the previous-questions list equals the pool size.\<close>

theorem quiz_select_terminates_iff:
  assumes ne: "pool \<noteq> []" and it: "py_iter prev = Inr xs"
    and fair: "fair_draws rnd (length pool)"
  shows "(\<exists>r. quiz_select rnd pool prev = Some r) \<longleftrightarrow>
         (\<exists>q\<in>set pool. \<not> served_before xs q) \<or> length xs = length pool"
proof
  assume ret: "\<exists>r. quiz_select rnd pool prev = Some r"
  show "(\<exists>q\<in>set pool. \<not> served_before xs q) \<or> length xs = length pool"
  proof (rule ccontr)
    assume "\<not> ((\<exists>q\<in>set pool. \<not> served_before xs q) \<or> length xs = length pool)"
    then have "\<forall>j. served_before xs (drawn rnd pool j)" and "length xs \<noteq> length pool"
      using ne drawn_in_pool by blast+
    with ne it have "quiz_select rnd pool prev = None"
      by (simp add: quiz_select_unfold quiz_loop_diverges)
    with ret show False by simp
  qed
next
  assume "(\<exists>q\<in>set pool. \<not> served_before xs q) \<or> length xs = length pool"
  with ne it fair show "\<exists>r. quiz_select rnd pool prev = Some r"
    by (rule quiz_select_returns_if_fair)
qed

theorem quiz_select_terminates_iff_witness:
  "ex_pool \<noteq> [] \<and> py_iter (PList [PInt 1]) = Inr [PInt 1] \<and> fair_draws (\<lambda>k. k) (length ex_pool)
   \<and> ((\<exists>r. quiz_select (\<lambda>k. k) ex_pool (PList [PInt 1]) = Some r) \<longleftrightarrow>
      (\<exists>q\<in>set ex_pool. \<not> served_before [PInt 1] q) \<or> length [PInt 1] = length ex_pool)"
  using quiz_select_terminates_iff [of ex_pool "PList [PInt 1]" "[PInt 1]" "\<lambda>k. k"]
    fair_draws_identity [of "length ex_pool"]
  by (simp add: served_before_def)

text \<open>C4. The request hangs: when every pool question has been served but the previous-questions list is longer or shorter than the pool (duplicate ids, or ids from outside the pool), the loop never returns, whatever the random draws.\<close>

theorem quiz_select_diverges:
  assumes "pool \<noteq> []" and "py_iter prev = Inr xs"
    and "\<forall>q\<in>set pool. served_before xs q" and "length xs \<noteq> length pool"
  shows "quiz_select rnd pool prev = None"
  using assms by (simp add: quiz_select_unfold quiz_loop_diverges drawn_in_pool)

theorem quiz_select_diverges_witness:
  "[ex_question 5 1] \<noteq> [] \<and> py_iter (PList [PInt 5, PInt 5]) = Inr [PInt 5, PInt 5]
   \<and> served_before [PInt 5, PInt 5] (ex_question 5 1)
   \<and> length [PInt 5, PInt 5] \<noteq> length [ex_question 5 1]
   \<and> quiz_select (\<lambda>k. k) [ex_question 5 1] (PList [PInt 5, PInt 5]) = None"
  using quiz_select_diverges [of "[ex_question 5 1]" "PList [PInt 5, PInt 5]" "[PInt 5, PInt 5]" "\<lambda>k. k"]
  by (simp add: served_before_def)

text \<open>C12. Premature end of the quiz: for a category other than 0, when the
  previous-questions list has the length of the category's pool, the first draw has been
  served and the redraw picks a question that has not, the endpoint answers with the
  exhaustion signal, although the pool is not exhausted: the length test runs after the
  redraw and discards the unserved question it has just drawn.\<close>

theorem question_generator_premature_exhaustion:
  assumes c: "c \<noteq> 0" and pool: "pool = filter (\<lambda>q. category q = Some c) (questions s)"
    and ne: "pool \<noteq> []" and len: "length xs = length pool"
    and first: "served_before xs (drawn rnd pool 0)"
    and redraw: "\<not> served_before xs (drawn rnd pool 1)"
  shows "question_generator s (quiz_body c (PList xs)) rnd = Some (Inr (quiz_response Exhausted))
         \<and> \<not> quiz_spec pool xs Exhausted"
proof
  have "quiz_select rnd pool (PList xs) = Some (Inr Exhausted)"
    using ne first len by (simp add: quiz_select_unfold quiz_loop_seen)
  with c pool show "question_generator s (quiz_body c (PList xs)) rnd = Some (Inr (quiz_response Exhausted))"
    by (simp add: question_generator_category del: quiz_response.simps)
next
  from ne have "drawn rnd pool 1 \<in> set pool" by (rule drawn_in_pool)
  with redraw show "\<not> quiz_spec pool xs Exhausted" by auto
qed

theorem question_generator_premature_exhaustion_witness:
  "(3::int) \<noteq> 0 \<and> ex_pool = filter (\<lambda>q. category q = Some 3) (questions ex_db) \<and> ex_pool \<noteq> []
   \<and> length [PInt 1, PInt 99] = length ex_pool
   \<and> served_before [PInt 1, PInt 99] (drawn (\<lambda>k. k) ex_pool 0)
   \<and> \<not> served_before [PInt 1, PInt 99] (drawn (\<lambda>k. k) ex_pool 1)
   \<and> question_generator ex_db (quiz_body 3 (PList [PInt 1, PInt 99])) (\<lambda>k. k)
       = Some (Inr (quiz_response Exhausted))
   \<and> \<not> quiz_spec ex_pool [PInt 1, PInt 99] Exhausted"
proof -
  have d: "served_before [PInt 1, PInt 99] (drawn (\<lambda>k. k) ex_pool 0)"
          "\<not> served_before [PInt 1, PInt 99] (drawn (\<lambda>k. k) ex_pool 1)"
    by (simp_all add: served_before_def drawn_def)
  have p: "ex_pool = filter (\<lambda>q. category q = Some 3) (questions ex_db)" by simp
  from question_generator_premature_exhaustion [OF _ p _ _ d] d p show ?thesis
    by (simp del: quiz_response.simps)
qed

text \<open>C10. Functional behaviour of the selector: the returned question is the first draw that is not in the previous-questions list, provided the exhaustion test does not fire before it (it is only evaluated after a redraw).\<close>

theorem quiz_select_first_unseen:
  assumes ne: "pool \<noteq> []" and it: "py_iter prev = Inr xs"
    and stop: "\<not> served_before xs (drawn rnd pool m)"
    and before: "\<forall>j<m. served_before xs (drawn rnd pool j)"
    and len: "m = 0 \<or> length xs \<noteq> length pool"
  shows "quiz_select rnd pool prev = Some (Inr (Served (drawn rnd pool m)))"
proof (cases m)
  case 0
  with ne it stop show ?thesis by (simp add: quiz_select_unfold quiz_loop_unseen)
next
  case (Suc m')
  with before have "served_before xs (drawn rnd pool 0)" by simp
  with Suc ne it stop before len show ?thesis
    by (simp add: quiz_select_unfold quiz_loop_first_unseen)
qed

theorem quiz_select_first_unseen_witness:
  "ex_pool \<noteq> [] \<and> py_iter (PList [PInt 1]) = Inr [PInt 1]
   \<and> \<not> served_before [PInt 1] (drawn (\<lambda>k. k) ex_pool 1)
   \<and> served_before [PInt 1] (drawn (\<lambda>k. k) ex_pool 0)
   \<and> (1 = (0::nat) \<or> length [PInt 1] \<noteq> length ex_pool)
   \<and> quiz_select (\<lambda>k. k) ex_pool (PList [PInt 1]) = Some (Inr (Served (drawn (\<lambda>k. k) ex_pool 1)))"
  using quiz_select_first_unseen [of ex_pool "PList [PInt 1]" "[PInt 1]" "\<lambda>k. k" 1]
  by (simp add: drawn_def served_before_def)

text \<open>C11. Exhaustion signal: when the first draw has been served and the previous-questions list has the length of the pool, the selection ends with the exhaustion signal, whatever the later draws.\<close>

theorem quiz_select_exhausted:
  assumes "pool \<noteq> []" and "py_iter prev = Inr xs"
    and "served_before xs (drawn rnd pool 0)" and "length xs = length pool"
  shows "quiz_select rnd pool prev = Some (Inr Exhausted)"
  using assms by (simp add: quiz_select_unfold quiz_loop_seen)

theorem quiz_select_exhausted_witness:
  "ex_pool \<noteq> [] \<and> py_iter (PList [PInt 2, PInt 1]) = Inr [PInt 2, PInt 1]
   \<and> served_before [PInt 2, PInt 1] (drawn (\<lambda>k. k) ex_pool 0)
   \<and> length [PInt 2, PInt 1] = length ex_pool
   \<and> quiz_select (\<lambda>k. k) ex_pool (PList [PInt 2, PInt 1]) = Some (Inr Exhausted)"
  using quiz_select_exhausted [of ex_pool "PList [PInt 2, PInt 1]" "[PInt 2, PInt 1]" "\<lambda>k. k"]
  by (simp add: drawn_def served_before_def)

text \<open>C13. The endpoint for a category other than 0 answers either with the exhaustion signal or with a stored question of that category that has not been served before.\<close>

theorem question_generator_serves_category:
  assumes "question_generator s (quiz_body c (PList xs)) rnd = Some (Inr v)" and "c \<noteq> 0"
  shows "v = quiz_response Exhausted \<or>
         (\<exists>q. v = quiz_response (Served q) \<and> q \<in> set (questions s) \<and> category q = Some c
              \<and> \<not> served_before xs q)"
proof -
  let ?pool = "filter (\<lambda>q. category q = Some c) (questions s)"
  from assms obtain r where r: "quiz_select rnd ?pool (PList xs) = Some r"
    and v: "map_sum id quiz_response r = Inr v"
    by (auto simp: question_generator_category)
  have ne: "?pool \<noteq> []"
    using r v by (cases ?pool) (auto simp: quiz_select_def choose_random_question_empty)
  from quiz_select_returns [OF r _ ne] v show ?thesis by auto
qed

theorem question_generator_serves_category_witness:
  "question_generator ex_db (quiz_body 3 (PList [PInt 1])) (\<lambda>k. k)
     = Some (Inr (quiz_response (Served (ex_question 2 3))))
   \<and> (3::int) \<noteq> 0
   \<and> (quiz_response (Served (ex_question 2 3)) = quiz_response Exhausted \<or>
      (\<exists>q. quiz_response (Served (ex_question 2 3)) = quiz_response (Served q)
           \<and> q \<in> set (questions ex_db) \<and> category q = Some 3 \<and> \<not> served_before [PInt 1] q))"
proof -
  have run: "question_generator ex_db (quiz_body 3 (PList [PInt 1])) (\<lambda>k. k)
     = Some (Inr (quiz_response (Served (ex_question 2 3))))"
    by (simp add: question_generator_category quiz_select_def choose_random_question_def
        randrange_def quiz_loop.simps check_in_previous_def del: quiz_response.simps)
  show ?thesis using run question_generator_serves_category [OF run] by simp
qed

text \<open>C15. A quiz request without a quiz_category or without a previous_questions field (or with null there) is answered with a bad-request error (400) before the store is read.\<close>

theorem question_generator_bad_request:
  assumes "map_of kvs (PStr ''quiz_category'') \<in> {None, Some PNone} \<or>
           map_of kvs (PStr ''previous_questions'') \<in> {None, Some PNone}"
  shows "question_generator s (PDict kvs) rnd = Some (Inl (HTTPException 400))"
  using assms by (auto simp: question_generator_def is_none_def split: option.splits)

theorem question_generator_bad_request_witness:
  "map_of [(PStr ''previous_questions'', PList [])] (PStr ''quiz_category'') \<in> {None, Some PNone}
   \<and> question_generator ex_db (PDict [(PStr ''previous_questions'', PList [])]) (\<lambda>k. k)
       = Some (Inl (HTTPException 400))"
  using question_generator_bad_request [of "[(PStr ''previous_questions'', PList [])]" ex_db "\<lambda>k. k"]
  by simp

text \<open>C14. A quiz request for a category with no questions makes randrange fail on the empty range: the endpoint raises ValueError, which becomes an internal server error.\<close>

theorem question_generator_empty_category:
  assumes "c \<noteq> 0" and "prev \<noteq> PNone" and "\<forall>q\<in>set (questions s). category q \<noteq> Some c"
  shows "question_generator s (quiz_body c prev) rnd = Some (Inl ValueError)"
proof -
  from assms(3) have "filter (\<lambda>q. category q = Some c) (questions s) = []"
    by (simp add: filter_empty_conv)
  with assms(1,2) show ?thesis
    by (simp add: question_generator_category quiz_select_def choose_random_question_empty)
qed

theorem question_generator_empty_category_witness:
  "(8::int) \<noteq> 0 \<and> PList [] \<noteq> PNone \<and> filter (\<lambda>q. category q = Some 8) (questions ex_db) = []
   \<and> question_generator ex_db (quiz_body 8 (PList [])) (\<lambda>k. k) = Some (Inl ValueError)"
  using question_generator_empty_category [of 8 "PList []" ex_db "\<lambda>k. k"] by simp

end
