(* ===== verification/Pagination.thy ===== *)
theory Pagination
  imports Store
begin

text \<open>
  The pagination helper \<open>paginate_questions\<close> (lines 9 to 20 of
  \<open>src/backend/flaskr/__init__.py\<close>): the page number comes from the query string
  (\<open>request.args.get('page', 1, type=int)\<close>: absent or not an integer gives 1), the
  page is a slice of the formatted selection, ten items wide.  The slice is Python's, so
  page numbers below 1 give negative bounds, which count from the end of the list.
\<close>

definition QUESTIONS_PER_PAGE :: int where
  "QUESTIONS_PER_PAGE = 10"

text \<open>\<open>request.args.get('page', 1, type=int)\<close>: the raw query argument, converted
  with \<open>int()\<close>; a failed conversion falls back to the default.\<close>

definition request_page :: "string option \<Rightarrow> int" where
  "request_page arg = (case arg of None \<Rightarrow> 1 | Some t \<Rightarrow> (case parse_int t of None \<Rightarrow> 1 | Some p \<Rightarrow> p))"

definition paginate_questions :: "string option \<Rightarrow> Question list \<Rightarrow> pyval list" where
  "paginate_questions page_arg selection =
     (let page = request_page page_arg;
          start = (page - 1) * QUESTIONS_PER_PAGE;
          stop = start + QUESTIONS_PER_PAGE;
          formatted_questions = map format_question selection
      in py_slice formatted_questions start stop)"

text \<open>A row used by the witnesses.\<close>

abbreviation ex_row :: Question where
  "ex_row \<equiv> \<lparr>qid = 1, question = None, answer = None, category = None, difficulty = None\<rparr>"

section \<open>Helper facts\<close>

lemma paginate_questions_page:
  assumes "1 \<le> request_page arg"
  shows "paginate_questions arg sel =
           map format_question (take 10 (drop (nat ((request_page arg - 1) * 10)) sel))"
proof -
  define s where "s = (request_page arg - 1) * 10"
  from assms have s0: "0 \<le> s" by (simp add: s_def)
  then have "nat (s + 10) - nat s = 10" by simp
  with s0 have "py_slice (map format_question sel) s (s + 10) =
                take 10 (drop (nat s) (map format_question sel))"
    by (simp add: py_slice_nonneg)
  then show ?thesis
    by (simp add: paginate_questions_def QUESTIONS_PER_PAGE_def Let_def s_def take_map drop_map)
qed

lemma paginate_questions_slice:
  "paginate_questions arg sel =
     map format_question (py_slice sel ((request_page arg - 1) * 10) ((request_page arg - 1) * 10 + 10))"
  by (simp add: paginate_questions_def QUESTIONS_PER_PAGE_def Let_def py_slice_map)

lemma request_page_minus_one: "request_page (Some ''-1'') = -1"
  by code_simp

section \<open>Properties of pagination\<close>

text \<open>C24. For a page number p of at least 1 given in the query string, paginate_questions returns the formatted questions at positions 10(p-1) to 10p-1 of the selection.\<close>

theorem paginate_questions_window:
  assumes "1 \<le> p"
  shows "paginate_questions (Some (int_to_string p)) sel =
           map format_question (take 10 (drop (nat ((p - 1) * 10)) sel))"
proof -
  have "request_page (Some (int_to_string p)) = p"
    by (simp add: request_page_def parse_int_to_string)
  with assms show ?thesis by (simp add: paginate_questions_page)
qed

theorem paginate_questions_window_witness:
  "1 \<le> (2::int)
   \<and> paginate_questions (Some (int_to_string 2)) (replicate 15 ex_row) = replicate 5 (format_question ex_row)"
  using paginate_questions_window [of 2 "replicate 15 ex_row"] by simp

text \<open>C25. Whatever the page argument (absent, malformed, zero or negative), a page holds at most QUESTIONS_PER_PAGE = 10 questions.\<close>

theorem paginate_questions_at_most_ten: "length (paginate_questions arg sel) \<le> 10"
  using length_py_slice_window [of 10 sel "(request_page arg - 1) * 10"]
  by (simp add: paginate_questions_slice)

text \<open>C27. A page number of at least 1 whose first position lies past the end of the selection gives the empty page, which the handlers turn into a 404.\<close>

theorem paginate_questions_beyond_last:
  assumes "1 \<le> request_page arg" and "int (length sel) \<le> (request_page arg - 1) * 10"
  shows "paginate_questions arg sel = []"
  using assms by (simp add: paginate_questions_page)

theorem paginate_questions_beyond_last_witness:
  "1 \<le> request_page (Some ''3'')
   \<and> int (length (replicate 15 ex_row)) \<le> (request_page (Some ''3'') - 1) * 10
   \<and> paginate_questions (Some ''3'') (replicate 15 ex_row) = []"
proof -
  have r: "request_page (Some ''3'') = 3" by code_simp
  show ?thesis using paginate_questions_beyond_last [of "Some ''3''" "replicate 15 ex_row"] r by simp
qed

lemma paginate_questions_sorted:
  "\<exists>qs. paginate_questions arg (query_all_ordered s) = map format_question qs
        \<and> sorted (map qid qs) \<and> set qs \<subseteq> set (questions s)"
proof -
  let ?qs = "py_slice (sort_key qid (questions s)) ((request_page arg - 1) * 10)
                ((request_page arg - 1) * 10 + 10)"
  have "sorted (map qid ?qs)"
    by (simp add: py_slice_map [symmetric] sorted_py_slice)
  moreover have "set ?qs \<subseteq> set (questions s)"
    using set_py_slice by fastforce
  ultimately show ?thesis
    by (intro exI [of _ ?qs]) (simp add: paginate_questions_slice query_all_ordered_def)
qed

text \<open>C28. A negative page number is not rejected: page -1 of a selection of at least 20 questions is the slice from the twentieth-last to the tenth-last question, by Python slicing with negative bounds.\<close>

theorem paginate_questions_negative_page:
  assumes "20 \<le> length sel"
  shows "paginate_questions (Some ''-1'') sel = map format_question (take 10 (drop (length sel - 20) sel))"
proof -
  have "py_slice sel (-20) (-10) = take 10 (drop (length sel - 20) sel)"
    using assms by (simp add: py_slice_def py_slice_index_def Let_def nat_diff_distrib)
  then show ?thesis
    by (simp add: paginate_questions_slice request_page_minus_one)
qed

theorem paginate_questions_negative_page_witness:
  "20 \<le> length (replicate 25 (ex_row :: Question))
   \<and> paginate_questions (Some ''-1'') (replicate 25 ex_row) = replicate 10 (format_question ex_row)"
  using paginate_questions_negative_page [of "replicate 25 ex_row"] by simp

end
