(* ===== verification/Handlers.thy ===== *)
theory Handlers
  imports Pagination
begin

text \<open>
  The CRUD endpoints of \<open>create_app\<close> in \<open>src/backend/flaskr/__init__.py\<close>:
  \<open>categories\<close> (GET /categories), \<open>all_questions\<close> (GET /questions),
  \<open>delete_question\<close> (DELETE /questions/<id>), \<open>create_question\<close> (POST /questions)
  and \<open>question_sieve\<close> (GET /categories/<id>/questions).  Each takes the store and
  the request's data and gives the dictionary passed to \<open>jsonify\<close> or the exception
  the handler ends with; the two that change the store also return the new store.
  \<open>abort(code)\<close> is \<open>Inl (HTTPException code)\<close>, and a bare \<open>except\<close> around a
  block is \<open>except_abort\<close>.
\<close>

text \<open>A store, rows and a request body used by the witnesses.\<close>

abbreviation ex_q :: "int \<Rightarrow> Question" where
  "ex_q i \<equiv> \<lparr>qid = i, question = Some ''Q'', answer = Some ''A'', category = Some 3, difficulty = Some 1\<rparr>"

abbreviation ex_store :: db where
  "ex_store \<equiv> \<lparr>questions = [ex_q 1, ex_q 2], categories = [\<lparr>cid = 3, ctype = ''Geography''\<rparr>],
               next_id = 3\<rparr>"

abbreviation ex_body :: pyval where
  "ex_body \<equiv> PDict [(PStr ''question'', PStr ''Why is the sky blue?''), (PStr ''answer'', PStr ''Rayleigh''),
                    (PStr ''difficulty'', PInt 4), (PStr ''category'', PInt 1)]"

section \<open>Formatting\<close>

text \<open>\<open>{category.id: category.type for category in categories}\<close>\<close>

definition format_categories :: "Category list \<Rightarrow> pyval" where
  "format_categories cats = PDict (dict_of (map (\<lambda>c. (PInt (cid c), PStr (ctype c))) cats))"

section \<open>Endpoints\<close>

text \<open>GET /categories: 404 when there is no category.\<close>

definition categories_endpoint :: "db \<Rightarrow> pyval result" where
  "categories_endpoint s =
     (let cats = query_categories s;
          formatted_categories = format_categories cats
      in if length cats = 0 then Inl (HTTPException 404)
         else Inr (PDict [(PStr ''success'', PBool True),
                          (PStr ''categories'', formatted_categories),
                          (PStr ''total_categories'', PInt (int (length cats)))]))"

text \<open>GET /questions: a page of all questions in id order; 404 for an empty page.\<close>

definition all_questions :: "db \<Rightarrow> string option \<Rightarrow> pyval result" where
  "all_questions s page_arg =
     (let selection = query_all_ordered s;
          current_questions = paginate_questions page_arg selection;
          total_questions = length selection;
          formatted_categories = format_categories (query_categories s)
      in if length current_questions = 0 then Inl (HTTPException 404)
         else Inr (PDict [(PStr ''questions'', PList current_questions),
                          (PStr ''total_questions'', PInt (int total_questions)),
                          (PStr ''categories'', formatted_categories),
                          (PStr ''current_category'', PNone),
                          (PStr ''success'', PBool True)]))"

text \<open>
  DELETE /questions/<question_id>: the whole body is inside \<open>try\<close>, so the
  \<open>abort(404)\<close> for a missing question is caught and turned into \<open>abort(422)\<close>.
\<close>

definition delete_question :: "db \<Rightarrow> int \<Rightarrow> string option \<Rightarrow> db \<times> pyval result" where
  "delete_question s question_id page_arg =
     (let (s', r) =
        (case query_one_or_none s question_id of
           Inl e \<Rightarrow> (s, Inl e)
         | Inr None \<Rightarrow> (s, Inl (HTTPException 404))
         | Inr (Some q) \<Rightarrow>
             (let s' = delete_row s q;
                  selection = query_all_ordered s';
                  current_questions = paginate_questions page_arg selection;
                  total_questions = length selection
              in (s', Inr (PDict [(PStr ''success'', PBool True),
                                  (PStr ''deleted'', PInt question_id),
                                  (PStr ''total_questions'', PInt (int total_questions))]))))
      in (s', except_abort 422 r))"

text \<open>
  POST /questions: the four fields are read outside the \<open>try\<close> (a body that is not a
  dictionary raises there); a failed insert is turned into \<open>abort(422)\<close>.
\<close>

definition create_question :: "db \<Rightarrow> pyval \<Rightarrow> string option \<Rightarrow> db \<times> pyval result" where
  "create_question s body page_arg =
     (case (py_get body ''question'', py_get body ''answer'', py_get body ''difficulty'',
            py_get body ''category'') of
        (Inr new_question, Inr new_answer, Inr new_difficulty, Inr new_category) \<Rightarrow>
          (case insert_question s new_question new_answer new_difficulty new_category of
             Inl e \<Rightarrow> (s, except_abort 422 (Inl e))
           | Inr (row, s') \<Rightarrow>
               (let selection = query_all_ordered s';
                    current_questions = paginate_questions page_arg selection;
                    total_questions = length selection
                in (s', Inr (PDict [(PStr ''success'', PBool True),
                                    (PStr ''created'', PInt (qid row)),
                                    (PStr ''questions'', PList current_questions),
                                    (PStr ''total_questions'', PInt (int total_questions))]))))
      | _ \<Rightarrow> (s, Inl AttributeError))"

text \<open>
  GET /categories/<category_id>/questions: the questions of the category in storage
  order, paginated; an empty page and any failure give 404.
\<close>

definition question_sieve :: "db \<Rightarrow> int \<Rightarrow> string option \<Rightarrow> pyval result" where
  "question_sieve s category_id page_arg =
     except_abort 404
       (case query_by_category s (PInt category_id) of
          Inl e \<Rightarrow> Inl e
        | Inr selection \<Rightarrow>
            (let current_questions = paginate_questions page_arg selection;
                 total_questions = length selection
             in if length current_questions = 0 then Inl (HTTPException 404)
                else Inr (PDict [(PStr ''questions'', PList current_questions),
                                 (PStr ''total_questions'', PInt (int total_questions)),
                                 (PStr ''current_category'', PInt category_id),
                                 (PStr ''success'', PBool True)])))"

section \<open>Helper facts\<close>

lemma format_categories_distinct:
  assumes "distinct (map cid cats)"
  shows "format_categories cats = PDict (map (\<lambda>c. (PInt (cid c), PStr (ctype c))) cats)"
proof -
  from assms have "distinct (map fst (map (\<lambda>c. (PInt (cid c), PStr (ctype c))) cats))"
    by (simp add: comp_def distinct_map inj_on_def)
  then show ?thesis by (simp add: format_categories_def dict_of_distinct)
qed

lemma length_filter_other_key:
  "distinct (map f xs) \<Longrightarrow> x \<in> set xs \<Longrightarrow> length (filter (\<lambda>y. f y \<noteq> f x) xs) = length xs - 1"
proof -
  assume d: "distinct (map f xs)" and x: "x \<in> set xs"
  have "length (filter (\<lambda>y. f y = f x) xs) + length (filter (\<lambda>y. \<not> f y = f x) xs) = length xs"
    by (rule sum_length_filter_compl)
  with filter_distinct_key [OF d x] show ?thesis by simp
qed

lemma length_query_all_ordered [simp]: "length (query_all_ordered s) = length (questions s)"
  by (simp add: query_all_ordered_def)

lemma create_question_Inr:
  assumes "insert_question s q a d c = Inr (row, s')"
  shows "create_question s (PDict [(PStr ''question'', q), (PStr ''answer'', a),
                                   (PStr ''difficulty'', d), (PStr ''category'', c)]) arg =
           (s', Inr (PDict [(PStr ''success'', PBool True), (PStr ''created'', PInt (qid row)),
                            (PStr ''questions'', PList (paginate_questions arg (query_all_ordered s'))),
                            (PStr ''total_questions'', PInt (int (length (questions s'))))]))"
  using assms by (simp add: create_question_def)

section \<open>Properties of the endpoints\<close>

text \<open>C16. Deleting an existing question (DELETE /questions/<id>) removes exactly the row with that id, answers with the deleted id and the new total, and a later lookup of the id finds nothing.
  The developer's note above the view (line 96, "Works but gives an error message (422
  unprocessable entity) whenever used") does not hold of the code: for a stored id the
  view answers success; 422 comes only from an id that is not stored (C17) or from a
  failing store call, which the store model excludes.\<close>

theorem delete_question_removes:
  assumes wf: "wf_db s" and q: "q \<in> set (questions s)"
  shows "delete_question s (qid q) arg =
           (s\<lparr>questions := filter (\<lambda>r. qid r \<noteq> qid q) (questions s)\<rparr>,
            Inr (PDict [(PStr ''success'', PBool True), (PStr ''deleted'', PInt (qid q)),
                        (PStr ''total_questions'', PInt (int (length (questions s)) - 1))]))
         \<and> query_one_or_none (s\<lparr>questions := filter (\<lambda>r. qid r \<noteq> qid q) (questions s)\<rparr>) (qid q)
           = Inr None"
proof -
  from wf q have len: "length (filter (\<lambda>r. qid r \<noteq> qid q) (questions s)) = length (questions s) - 1"
    by (simp add: wf_db_def length_filter_other_key)
  from q have "0 < length (questions s)" by (cases "questions s") auto
  with len have "int (length (filter (\<lambda>r. qid r \<noteq> qid q) (questions s))) = int (length (questions s)) - 1"
    by (cases "length (questions s)") simp_all
  moreover have "\<not> has_id (s\<lparr>questions := filter (\<lambda>r. qid r \<noteq> qid q) (questions s)\<rparr>) (qid q)"
    by (auto simp: has_id_def)
  ultimately show ?thesis
    using wf q by (simp add: delete_question_def query_one_or_none_present delete_row_def
        query_one_or_none_missing query_all_ordered_def)
qed

theorem delete_question_removes_witness:
  "wf_db ex_store \<and> ex_q 1 \<in> set (questions ex_store)
   \<and> delete_question ex_store 1 None =
       (ex_store\<lparr>questions := [ex_q 2]\<rparr>,
        Inr (PDict [(PStr ''success'', PBool True), (PStr ''deleted'', PInt 1),
                    (PStr ''total_questions'', PInt 1)]))
   \<and> query_one_or_none (ex_store\<lparr>questions := [ex_q 2]\<rparr>) 1 = Inr None"
  using delete_question_removes [of ex_store "ex_q 1" None] by (simp add: wf_db_def)

text \<open>C17. Deleting an id that is not stored leaves the store unchanged and answers 422: the abort(404) raised inside the try block is caught by the bare except and replaced by abort(422).\<close>

theorem delete_question_missing:
  assumes "\<not> has_id s i"
  shows "delete_question s i arg = (s, Inl (HTTPException 422))"
  using assms by (simp add: delete_question_def query_one_or_none_missing)

theorem delete_question_missing_witness:
  "\<not> has_id ex_store 1000 \<and> delete_question ex_store 1000 None = (ex_store, Inl (HTTPException 422))"
  using delete_question_missing [of ex_store 1000 None] by (simp add: has_id_def)

text \<open>C18. A successful POST /questions answers with the id of the new row, which is the next value of the id sequence, was not used by any stored question, and can be looked up afterwards; the store stays well formed.\<close>

theorem create_question_fresh:
  assumes wf: "wf_db s"
    and ins: "create_question s body arg = (s', Inr v)"
  shows "\<exists>row rest. v = PDict ((PStr ''success'', PBool True) # (PStr ''created'', PInt (qid row)) # rest)
           \<and> qid row = next_id s \<and> \<not> has_id s (qid row) \<and> questions s' = questions s @ [row]
           \<and> query_one_or_none s' (qid row) = Inr (Some row) \<and> wf_db s'"
proof -
  from ins obtain q a d c row where
    i: "insert_question s q a d c = Inr (row, s')"
    and v: "v = PDict [(PStr ''success'', PBool True), (PStr ''created'', PInt (qid row)),
                       (PStr ''questions'', PList (paginate_questions arg (query_all_ordered s'))),
                       (PStr ''total_questions'', PInt (int (length (questions s'))))]"
    by (auto simp: create_question_def split: sum.splits prod.splits)
  from insert_question_row [OF i]
  have r: "qid row = next_id s" "questions s' = questions s @ [row]" by simp_all
  from insert_question_wf [OF i wf] have wf': "wf_db s'" .
  from wf r have fresh: "\<not> has_id s (qid row)" by (auto simp: wf_db_def has_id_def)
  from r have "row \<in> set (questions s')" by simp
  with wf' have "query_one_or_none s' (qid row) = Inr (Some row)"
    by (rule query_one_or_none_present)
  with v r fresh wf' show ?thesis by blast
qed

theorem create_question_fresh_witness:
  "wf_db ex_store
   \<and> (\<exists>s' v. create_question ex_store ex_body None = (s', Inr v)
        \<and> (\<exists>row rest. v = PDict ((PStr ''success'', PBool True) # (PStr ''created'', PInt (qid row)) # rest)
             \<and> qid row = next_id ex_store \<and> \<not> has_id ex_store (qid row)
             \<and> questions s' = questions ex_store @ [row]
             \<and> query_one_or_none s' (qid row) = Inr (Some row) \<and> wf_db s'))"
proof -
  have wf: "wf_db ex_store" by (simp add: wf_db_def)
  obtain s' v where c: "create_question ex_store ex_body None = (s', Inr v)"
    using create_question_Inr [OF insert_question_Inr, of "PStr ''Why is the sky blue?''"
        "Some ''Why is the sky blue?''" "PStr ''Rayleigh''" "Some ''Rayleigh''" "PInt 4" "Some 4"
        "PInt 1" "Some 1" ex_store None]
    by (simp add: int4_value_def in_int4_def int4_max_def)
  show ?thesis using wf c create_question_fresh [OF wf c] by blast
qed

text \<open>C32. POST /questions does not check that the fields are present: a body without question, answer, difficulty and category inserts a row with all four columns NULL and answers success.\<close>

theorem create_question_without_fields:
  assumes "next_id s \<le> int4_max"
  shows "create_question s (PDict []) arg =
           (s\<lparr>questions := questions s @ [\<lparr>qid = next_id s, question = None, answer = None,
                                              category = None, difficulty = None\<rparr>],
              next_id := next_id s + 1\<rparr>,
            Inr (PDict [(PStr ''success'', PBool True), (PStr ''created'', PInt (next_id s)),
                        (PStr ''questions'', PList (paginate_questions arg
                          (sort_key qid (questions s @ [\<lparr>qid = next_id s, question = None,
                             answer = None, category = None, difficulty = None\<rparr>])))),
                        (PStr ''total_questions'', PInt (int (length (questions s)) + 1))]))"
  using assms by (simp add: create_question_def insert_question_def query_all_ordered_def Let_def)

theorem create_question_without_fields_witness:
  "next_id ex_store \<le> int4_max
   \<and> fst (create_question ex_store (PDict []) None) =
       ex_store\<lparr>questions := [ex_q 1, ex_q 2, \<lparr>qid = 3, question = None, answer = None,
                                                category = None, difficulty = None\<rparr>],
                next_id := 4\<rparr>"
  using create_question_without_fields [of ex_store None] by (simp add: int4_max_def)

text \<open>C29. A successful GET /categories/<id>/questions lists a non-empty page of formatted stored questions, each of the requested category.\<close>

theorem question_sieve_category:
  assumes "question_sieve s c arg = Inr (PDict ((PStr ''questions'', PList items) # rest))"
  shows "items \<noteq> [] \<and> (\<forall>it\<in>set items. \<exists>q\<in>set (questions s). category q = Some c \<and> it = format_question q)"
proof -
  let ?sel = "filter (\<lambda>q. category q = Some c) (questions s)"
  from assms have items: "items = paginate_questions arg ?sel" and ne: "items \<noteq> []"
    by (auto simp: question_sieve_def query_by_category_def Let_def except_abort_def
        split: if_splits sum.splits)
  have "set items \<subseteq> format_question ` set ?sel"
    using set_py_slice by (fastforce simp: items paginate_questions_slice)
  with ne show ?thesis by auto
qed

theorem question_sieve_category_witness:
  "question_sieve ex_store 3 None =
     Inr (PDict [(PStr ''questions'', PList [format_question (ex_q 1), format_question (ex_q 2)]),
                 (PStr ''total_questions'', PInt 2), (PStr ''current_category'', PInt 3),
                 (PStr ''success'', PBool True)])
   \<and> [format_question (ex_q 1), format_question (ex_q 2)] \<noteq> []
   \<and> format_question (ex_q 2) \<in> format_question ` set (filter (\<lambda>q. category q = Some 3) (questions ex_store))"
proof -
  have run: "question_sieve ex_store 3 None =
     Inr (PDict [(PStr ''questions'', PList [format_question (ex_q 1), format_question (ex_q 2)]),
                 (PStr ''total_questions'', PInt 2), (PStr ''current_category'', PInt 3),
                 (PStr ''success'', PBool True)])"
    by (simp add: question_sieve_def query_by_category_def paginate_questions_page request_page_def
        del: format_question_def)
  show ?thesis using run question_sieve_category [OF run] by auto
qed

text \<open>C30. GET /categories/<id>/questions for a category without questions answers 404.\<close>

theorem question_sieve_empty_category:
  assumes "\<forall>q\<in>set (questions s). category q \<noteq> Some c"
  shows "question_sieve s c arg = Inl (HTTPException 404)"
proof -
  from assms have "filter (\<lambda>q. category q = Some c) (questions s) = []"
    by (simp add: filter_empty_conv)
  then show ?thesis
    by (simp add: question_sieve_def query_by_category_def paginate_questions_slice py_slice_def Let_def)
qed

theorem question_sieve_empty_category_witness:
  "filter (\<lambda>q. category q = Some 8) (questions ex_store) = []
   \<and> question_sieve ex_store 8 None = Inl (HTTPException 404)"
  using question_sieve_empty_category [of ex_store 8 None] by simp

text \<open>C31. GET /questions?page=N for a page past the last one answers 404, the behaviour the test test_404_sent_requesting_beyond_valid_page expects.\<close>

theorem all_questions_beyond_last:
  assumes "1 \<le> request_page arg" and "int (length (questions s)) \<le> (request_page arg - 1) * 10"
  shows "all_questions s arg = Inl (HTTPException 404)"
  using assms by (simp add: all_questions_def paginate_questions_page Let_def)

theorem all_questions_beyond_last_witness:
  "1 \<le> request_page (Some ''1000'')
   \<and> int (length (questions ex_store)) \<le> (request_page (Some ''1000'') - 1) * 10
   \<and> all_questions ex_store (Some ''1000'') = Inl (HTTPException 404)"
proof -
  have r: "request_page (Some ''1000'') = 1000" by code_simp
  show ?thesis using all_questions_beyond_last [of "Some ''1000''" ex_store] r by simp
qed

text \<open>C33. The id sequence is a 32-bit integer: once it has passed 2147483647, every POST
  /questions with a JSON object body answers 422 and stores nothing.\<close>

theorem create_question_sequence_exhausted:
  assumes "int4_max < next_id s"
  shows "create_question s (PDict kvs) arg = (s, Inl (HTTPException 422))"
  using assms by (simp add: create_question_def insert_question_exhausted)

theorem create_question_sequence_exhausted_witness:
  "int4_max < next_id (ex_store\<lparr>next_id := 2 ^ 31\<rparr>)
   \<and> create_question (ex_store\<lparr>next_id := 2 ^ 31\<rparr>) ex_body None
       = (ex_store\<lparr>next_id := 2 ^ 31\<rparr>, Inl (HTTPException 422))"
  using create_question_sequence_exhausted [of "ex_store\<lparr>next_id := 2 ^ 31\<rparr>"]
  by (simp add: int4_max_def)

text \<open>C34. GET /categories answers the dictionary built by the comprehension
  \<open>{category.id: category.type ...}\<close>: with distinct category ids (the primary key) it
  has one entry per stored category, and the entry of each id is that category's type;
  \<open>total_categories\<close> is the number of categories.\<close>

theorem categories_endpoint_lookup:
  assumes "distinct (map cid (categories s))" and "c \<in> set (categories s)"
  shows "\<exists>kvs. categories_endpoint s =
            Inr (PDict [(PStr ''success'', PBool True), (PStr ''categories'', PDict kvs),
                        (PStr ''total_categories'', PInt (int (length (categories s))))])
          \<and> length kvs = length (categories s) \<and> map_of kvs (PInt (cid c)) = Some (PStr (ctype c))"
proof -
  let ?kvs = "map (\<lambda>c. (PInt (cid c), PStr (ctype c))) (categories s)"
  from assms(1) have d: "distinct (map fst ?kvs)" by (simp add: comp_def distinct_map inj_on_def)
  from assms(2) have "(PInt (cid c), PStr (ctype c)) \<in> set ?kvs" by auto
  with d have "map_of ?kvs (PInt (cid c)) = Some (PStr (ctype c))" by (rule map_of_is_SomeI)
  moreover from assms(2) have "categories s \<noteq> []" by auto
  ultimately show ?thesis using format_categories_distinct [OF assms(1)]
    by (intro exI [of _ ?kvs]) (simp add: categories_endpoint_def query_categories_def Let_def)
qed

theorem categories_endpoint_lookup_witness:
  "distinct (map cid (categories ex_store)) \<and> \<lparr>cid = 3, ctype = ''Geography''\<rparr> \<in> set (categories ex_store)
   \<and> categories_endpoint ex_store =
       Inr (PDict [(PStr ''success'', PBool True),
                   (PStr ''categories'', PDict [(PInt 3, PStr ''Geography'')]),
                   (PStr ''total_categories'', PInt 1)])"
proof -
  have "categories_endpoint ex_store =
       Inr (PDict [(PStr ''success'', PBool True),
                   (PStr ''categories'', PDict [(PInt 3, PStr ''Geography'')]),
                   (PStr ''total_categories'', PInt 1)])"
    by (simp add: categories_endpoint_def query_categories_def format_categories_def dict_of_def
        dict_set_def Let_def)
  with categories_endpoint_lookup [of ex_store "\<lparr>cid = 3, ctype = ''Geography''\<rparr>"] show ?thesis
    by simp
qed

text \<open>C26. A successful GET /questions lists a non-empty page of stored questions in
  ascending id order (the \<open>order_by(Question.id)\<close> of the view), with the count of all
  stored questions and the categories.\<close>

theorem all_questions_id_order:
  assumes "all_questions s arg = Inr v"
  shows "\<exists>qs. v = PDict [(PStr ''questions'', PList (map format_question qs)),
                         (PStr ''total_questions'', PInt (int (length (questions s)))),
                         (PStr ''categories'', format_categories (categories s)),
                         (PStr ''current_category'', PNone), (PStr ''success'', PBool True)]
              \<and> qs \<noteq> [] \<and> sorted (map qid qs) \<and> set qs \<subseteq> set (questions s)"
proof -
  from paginate_questions_sorted obtain qs where
    qs: "paginate_questions arg (query_all_ordered s) = map format_question qs"
        "sorted (map qid qs)" "set qs \<subseteq> set (questions s)" by blast
  with assms show ?thesis
    by (intro exI [of _ qs]) (auto simp: all_questions_def query_categories_def Let_def split: if_splits)
qed

theorem all_questions_id_order_witness:
  "all_questions ex_store None =
     Inr (PDict [(PStr ''questions'', PList [format_question (ex_q 1), format_question (ex_q 2)]),
                 (PStr ''total_questions'', PInt 2),
                 (PStr ''categories'', format_categories (categories ex_store)),
                 (PStr ''current_category'', PNone), (PStr ''success'', PBool True)])
   \<and> sorted (map qid [ex_q 1, ex_q 2])"
proof -
  have a: "all_questions ex_store None =
     Inr (PDict [(PStr ''questions'', PList [format_question (ex_q 1), format_question (ex_q 2)]),
                 (PStr ''total_questions'', PInt 2),
                 (PStr ''categories'', format_categories (categories ex_store)),
                 (PStr ''current_category'', PNone), (PStr ''success'', PBool True)])"
    by (simp add: all_questions_def query_all_ordered_def paginate_questions_def request_page_def
        QUESTIONS_PER_PAGE_def py_slice_def py_slice_index_def query_categories_def Let_def
        del: format_question_def)
  from all_questions_id_order [OF a] a show ?thesis by simp
qed

end
