(* ===== verification/Search.thy ===== *)
theory Search
  imports Handlers
begin

text \<open>
  The search endpoint \<open>question_search\<close> (POST /questions/search, lines 170 to 192 of
  \<open>src/backend/flaskr/__init__.py\<close>) and the store query it runs,
  \<open>Question.query.filter(Question.question.ilike(f'%{search_term}%'))\<close>.  The search
  term is pasted into an SQL \<open>ILIKE\<close> pattern: \<open>%\<close> matches any run of
  characters, \<open>_\<close> any one character, and a backslash makes the next character
  literal; the comparison ignores the case of ASCII letters.  A NULL question text
  matches nothing.
\<close>

section \<open>The store's ILIKE\<close>

definition ascii_lower :: "char \<Rightarrow> char" where
  "ascii_lower c = (if (65::nat) \<le> of_char c \<and> of_char c \<le> (90::nat) then char_of (of_char c + (32::nat)) else c)"

function like_match :: "string \<Rightarrow> string \<Rightarrow> bool" where
  "like_match [] t \<longleftrightarrow> t = []"
| "like_match (p # ps) t \<longleftrightarrow>
     (if p = CHR ''%'' then
        like_match ps t \<or> (case t of [] \<Rightarrow> False | _ # t' \<Rightarrow> like_match (p # ps) t')
      else if p = CHR ''_'' then (case t of [] \<Rightarrow> False | _ # t' \<Rightarrow> like_match ps t')
      else if p = CHR 0x5C \<and> ps \<noteq> [] then
        (case t of [] \<Rightarrow> False | c # t' \<Rightarrow> c = hd ps \<and> like_match (tl ps) t')
      else (case t of [] \<Rightarrow> False | c # t' \<Rightarrow> c = p \<and> like_match ps t'))"
  by pat_completeness auto
termination
  by (relation "measures [\<lambda>(p, t). length p, \<lambda>(p, t). length t]") auto

definition ilike :: "string \<Rightarrow> string \<Rightarrow> bool" where
  "ilike t pattern \<longleftrightarrow> like_match (map ascii_lower pattern) (map ascii_lower t)"

text \<open>\<open>Question.query.filter(Question.question.ilike(pattern)).all()\<close>, in storage order.\<close>

definition query_ilike :: "db \<Rightarrow> string \<Rightarrow> Question list" where
  "query_ilike s pattern =
     filter (\<lambda>q. case question q of None \<Rightarrow> False | Some t \<Rightarrow> ilike t pattern) (questions s)"

text \<open>The characters with a meaning in a pattern.\<close>

definition like_special :: "char \<Rightarrow> bool" where
  "like_special c \<longleftrightarrow> c = CHR ''%'' \<or> c = CHR ''_'' \<or> c = CHR 0x5C"

section \<open>The endpoint\<close>

text \<open>
  \<open>question_search()\<close>: \<open>body.get('searchTerm')\<close> outside the \<open>try\<close>; inside it a
  false term (absent, null, empty) reaches \<open>abort(404)\<close>, which the bare
  \<open>except\<close> turns into \<open>abort(422)\<close>.
\<close>

definition question_search :: "db \<Rightarrow> pyval \<Rightarrow> pyval result" where
  "question_search s body =
     (case py_get body ''searchTerm'' of
        Inl e \<Rightarrow> Inl e
      | Inr search_term \<Rightarrow>
          except_abort 422
            (if py_truthy search_term then
               (let selection = query_ilike s (''%'' @ py_str search_term @ ''%'');
                    formatted_questions = map format_question selection;
                    total_questions = length selection
                in Inr (PDict [(PStr ''questions'', PList formatted_questions),
                               (PStr ''total_questions'', PInt (int total_questions)),
                               (PStr ''current_category'', PNone),
                               (PStr ''success'', PBool True)]))
             else Inl (HTTPException 404)))"

section \<open>Facts about LIKE patterns\<close>

declare like_match.simps [simp del]

lemma like_match_Nil [simp]: "like_match [] t \<longleftrightarrow> t = []"
  by (simp add: like_match.simps)

lemma like_match_percent_only: "like_match [CHR ''%''] t"
  by (induction t) (simp_all add: like_match.simps(2) [of "CHR ''%''" "[]"])

lemma like_match_literal_prefix:
  "\<not> list_ex like_special p \<Longrightarrow> like_match (p @ [CHR ''%'']) t \<longleftrightarrow> prefix p t"
proof (induction p arbitrary: t)
  case Nil
  then show ?case by (simp add: like_match_percent_only)
next
  case (Cons c p)
  then show ?case
    by (cases t) (auto simp: like_match.simps(2) [of c "p @ [CHR ''%'']"] like_special_def)
qed

lemma ex_nat_le_Suc_conv: "(\<exists>n\<le>Suc m. P n) \<longleftrightarrow> P 0 \<or> (\<exists>n\<le>m. P (Suc n))"
  by (metis Suc_le_mono not0_implies_Suc zero_le)

lemma like_match_percent:
  "like_match (CHR ''%'' # q) t \<longleftrightarrow> (\<exists>n\<le>length t. like_match q (drop n t))"
proof (induction t)
  case Nil
  then show ?case by (simp add: like_match.simps(2) [of "CHR ''%''" q])
next
  case (Cons x t)
  have "like_match (CHR ''%'' # q) (x # t) \<longleftrightarrow> like_match q (x # t) \<or> like_match (CHR ''%'' # q) t"
    by (simp add: like_match.simps(2) [of "CHR ''%''" q])
  also have "\<dots> \<longleftrightarrow> (\<exists>n\<le>length (x # t). like_match q (drop n (x # t)))"
    using Cons.IH by (auto simp: ex_nat_le_Suc_conv)
  finally show ?case .
qed

lemma prefix_drop_sublist: "(\<exists>n\<le>length t. prefix p (drop n t)) \<longleftrightarrow> sublist p t"
proof
  assume "\<exists>n\<le>length t. prefix p (drop n t)"
  then obtain n ss where "drop n t = p @ ss" by (auto simp: prefix_def)
  then have "t = take n t @ p @ ss" by (metis append_take_drop_id)
  then show "sublist p t" by (metis sublist_appendI)
next
  assume "sublist p t"
  then obtain ps ss where t: "t = ps @ p @ ss" by (auto simp: sublist_def)
  then have "drop (length ps) t = p @ ss" by simp
  with t show "\<exists>n\<le>length t. prefix p (drop n t)"
    by (intro exI [of _ "length ps"]) simp
qed

lemma like_match_contains:
  "\<not> list_ex like_special p \<Longrightarrow> like_match (CHR ''%'' # p @ [CHR ''%'']) t \<longleftrightarrow> sublist p t"
  by (simp add: like_match_percent like_match_literal_prefix prefix_drop_sublist)

lemma char_eq_code: "c = d \<longleftrightarrow> (of_char c :: nat) = of_char d"
  by simp

lemma like_special_code: "like_special c \<longleftrightarrow> (of_char c :: nat) \<in> {37, 92, 95}"
  unfolding like_special_def by (subst (1 2 3) char_eq_code) auto

lemma ascii_lower_special: "like_special (ascii_lower c) \<longleftrightarrow> like_special c"
proof (cases "(65::nat) \<le> of_char c \<and> of_char c \<le> (90::nat)")
  case True
  then have "(of_char (ascii_lower c) :: nat) = of_char c + 32"
    by (simp add: ascii_lower_def)
  with True show ?thesis by (simp add: like_special_code)
next
  case False
  then have "ascii_lower c = c" unfolding ascii_lower_def by auto
  then show ?thesis by simp
qed

lemma ilike_contains:
  assumes "\<not> list_ex like_special term"
  shows "ilike t (CHR ''%'' # term @ ''%'') \<longleftrightarrow> sublist (map ascii_lower term) (map ascii_lower t)"
proof -
  have pct: "ascii_lower (CHR ''%'') = CHR ''%''" by (simp add: ascii_lower_def)
  from assms have "\<not> list_ex like_special (map ascii_lower term)"
    by (simp add: list_ex_iff ascii_lower_special)
  then show ?thesis
    by (simp add: ilike_def pct like_match_contains)
qed

lemma like_match_any_char: "like_match [CHR ''_'', CHR ''%''] t \<longleftrightarrow> t \<noteq> []"
  by (cases t) (simp_all add: like_match.simps(2) [of "CHR ''_''"] like_match_percent_only)

lemma ilike_any_char: "ilike t ''%_%'' \<longleftrightarrow> t \<noteq> []"
proof -
  have "map ascii_lower ''%_%'' = CHR ''%'' # [CHR ''_'', CHR ''%'']" by (simp add: ascii_lower_def)
  then have "ilike t ''%_%'' \<longleftrightarrow> (\<exists>n\<le>length t. drop n (map ascii_lower t) \<noteq> [])"
    by (simp add: ilike_def like_match_percent like_match_any_char)
  also have "\<dots> \<longleftrightarrow> t \<noteq> []" by (cases t) auto
  finally show ?thesis .
qed

section \<open>Properties of the search\<close>

text \<open>C19. For a non-empty search term without the pattern characters \<open>%\<close>, \<open>_\<close> and
  backslash, the search answers with exactly the stored questions whose text contains the
  term, ignoring the case of ASCII letters, in storage order, with their count.\<close>

theorem question_search_literal:
  assumes "term \<noteq> []" and "\<not> list_ex like_special term"
  shows "question_search s (PDict [(PStr ''searchTerm'', PStr term)]) =
           (let selection = filter (\<lambda>q. case question q of None \<Rightarrow> False
                                     | Some t \<Rightarrow> sublist (map ascii_lower term) (map ascii_lower t))
                              (questions s)
            in Inr (PDict [(PStr ''questions'', PList (map format_question selection)),
                           (PStr ''total_questions'', PInt (int (length selection))),
                           (PStr ''current_category'', PNone),
                           (PStr ''success'', PBool True)]))"
proof -
  have "query_ilike s (''%'' @ term @ ''%'') =
        filter (\<lambda>q. case question q of None \<Rightarrow> False
                    | Some t \<Rightarrow> sublist (map ascii_lower term) (map ascii_lower t)) (questions s)"
    unfolding query_ilike_def using assms(2)
    by (intro filter_cong) (simp_all add: ilike_contains split: option.splits)
  with assms(1) show ?thesis by (simp add: question_search_def py_str_def Let_def)
qed

theorem question_search_literal_witness:
  "''hippy hitman'' \<noteq> [] \<and> \<not> list_ex like_special ''hippy hitman''
   \<and> question_search ex_store (PDict [(PStr ''searchTerm'', PStr ''hippy hitman'')]) =
       Inr (PDict [(PStr ''questions'', PList []), (PStr ''total_questions'', PInt 0),
                   (PStr ''current_category'', PNone), (PStr ''success'', PBool True)])"
proof -
  have lit: "\<not> list_ex like_special ''hippy hitman''"
    by (simp add: like_special_def)
  have "\<not> sublist (map ascii_lower ''hippy hitman'') (map ascii_lower ''Q'')"
    using sublist_length_le by fastforce
  with lit show ?thesis
    using question_search_literal [of "''hippy hitman''" ex_store] by (simp add: Let_def)
qed

text \<open>C20. The term is a LIKE pattern, not a substring: for the term \<open>_\<close>, the search
  answers with every stored question whose text is non-empty, whether or not the text
  contains the character \<open>_\<close>.\<close>

theorem question_search_wildcard:
  "question_search s (PDict [(PStr ''searchTerm'', PStr ''_'')]) =
     (let selection = filter (\<lambda>q. case question q of None \<Rightarrow> False | Some t \<Rightarrow> t \<noteq> []) (questions s)
      in Inr (PDict [(PStr ''questions'', PList (map format_question selection)),
                     (PStr ''total_questions'', PInt (int (length selection))),
                     (PStr ''current_category'', PNone),
                     (PStr ''success'', PBool True)]))"
proof -
  have "query_ilike s (''%'' @ ''_'' @ ''%'') =
        filter (\<lambda>q. case question q of None \<Rightarrow> False | Some t \<Rightarrow> t \<noteq> []) (questions s)"
    unfolding query_ilike_def by (intro filter_cong) (simp_all add: ilike_any_char split: option.splits)
  then show ?thesis by (simp add: question_search_def py_str_def Let_def)
qed

text \<open>C21. A search request whose term is absent, null or empty is answered 422: the
  abort(404) for a false term is raised inside the try block and replaced by abort(422).\<close>

theorem question_search_no_term:
  assumes "map_of kvs (PStr ''searchTerm'') \<in> {None, Some PNone, Some (PStr [])}"
  shows "question_search s (PDict kvs) = Inl (HTTPException 422)"
  using assms by (auto simp: question_search_def)

theorem question_search_no_term_witness:
  "map_of [] (PStr ''searchTerm'') \<in> {None, Some PNone, Some (PStr [])}
   \<and> question_search ex_store (PDict []) = Inl (HTTPException 422)"
  using question_search_no_term [of "[]" ex_store] by simp

end
