(* ===== verification/App.thy ===== *)
theory App
  imports Quiz Search
begin

text \<open>
  The application \<open>create_app\<close> of \<open>src/backend/flaskr/__init__.py\<close> as one step
  function from a store and a request to the next store and the response: the URL rules
  (with Werkzeug's \<open><int:..>\<close> converter, the automatic HEAD and OPTIONS methods, 404 for
  an unknown path and 405 for a known path with another method), the call of the
  endpoint, the JSON error handlers for 400, 404, 405, 422 and 500 (an exception that is
  not an HTTP exception is a 500), and the headers added to every response by the
  \<open>after_request\<close> hook and by the CORS extension, which is configured for the paths
  \<open>/api/*\<close> only.  A request is answered by at most one step; the quiz endpoint may
  not return, so the step is partial.
\<close>

section \<open>Requests and responses\<close>

datatype http_method = GET | POST | DELETE | PUT | PATCH | HEAD | OPTIONS

text \<open>The request: method, URL path, the raw \<open>page\<close> query argument, the decoded JSON
  body and the \<open>Origin\<close> header.\<close>

record request =
  req_method :: http_method
  path :: string
  page_arg :: "string option"
  body :: pyval
  origin :: "string option"

record response =
  status :: nat
  payload :: "pyval option"
  headers :: "(string \<times> string) list"

section \<open>URL rules\<close>

datatype endpoint =
    EpCategories
  | EpAllQuestions
  | EpCreateQuestion
  | EpDeleteQuestion int
  | EpSearch
  | EpSieve int
  | EpQuizzes

text \<open>The path split at its slashes, without the leading empty segment.\<close>

fun split_on :: "char \<Rightarrow> string \<Rightarrow> string list" where
  "split_on d [] = [[]]"
| "split_on d (c # cs) =
     (if c = d then [] # split_on d cs
      else (case split_on d cs of w # ws \<Rightarrow> (c # w) # ws | [] \<Rightarrow> [[c]]))"

definition path_segments :: "string \<Rightarrow> string list option" where
  "path_segments p =
     (case p of [] \<Rightarrow> None | c # rest \<Rightarrow> if c = CHR ''/'' then Some (split_on CHR ''/'' rest) else None)"

text \<open>Werkzeug's \<open>int\<close> converter: one or more decimal digits.\<close>

definition int_segment :: "string \<Rightarrow> int option" where
  "int_segment w = map_option int (digits_value w)"

text \<open>The URL map of \<open>create_app\<close>: the rules registered with \<open>@app.route\<close>, in the
  order of the source, each with its path pattern, its methods and its view.  A pattern
  is a list of segments: a literal, or Werkzeug's \<open><int:..>\<close> converter, whose value
  is passed to the view.\<close>

datatype seg_pat = Lit string | IntArg

definition url_map :: "(seg_pat list \<times> http_method list \<times> (int list \<Rightarrow> endpoint)) list" where
  "url_map =
     [([Lit ''categories''], [GET], \<lambda>_. EpCategories),
      ([Lit ''questions''], [GET], \<lambda>_. EpAllQuestions),
      ([Lit ''questions'', IntArg], [DELETE], \<lambda>args. EpDeleteQuestion (hd args)),
      ([Lit ''questions''], [POST], \<lambda>_. EpCreateQuestion),
      ([Lit ''questions'', Lit ''search''], [POST], \<lambda>_. EpSearch),
      ([Lit ''categories'', IntArg, Lit ''questions''], [GET], \<lambda>args. EpSieve (hd args)),
      ([Lit ''quizzes''], [POST], \<lambda>_. EpQuizzes)]"

text \<open>Matching a pattern against the path's segments gives the converted arguments.\<close>

fun match_segs :: "seg_pat list \<Rightarrow> string list \<Rightarrow> int list option" where
  "match_segs [] [] = Some []"
| "match_segs (Lit w # ps) (x # xs) = (if x = w then match_segs ps xs else None)"
| "match_segs (IntArg # ps) (x # xs) =
     (case int_segment x of None \<Rightarrow> None | Some i \<Rightarrow> map_option (Cons i) (match_segs ps xs))"
| "match_segs _ _ = None"

text \<open>The rules whose pattern matches the path, with their methods and views.\<close>

definition url_rules :: "string list \<Rightarrow> (http_method list \<times> endpoint) list" where
  "url_rules segs =
     concat (map (\<lambda>(pat, ms, view). case match_segs pat segs of None \<Rightarrow> [] | Some args \<Rightarrow> [(ms, view args)])
               url_map)"

text \<open>A rule for GET also answers HEAD; every rule answers OPTIONS.\<close>

definition rule_allows :: "http_method list \<Rightarrow> http_method \<Rightarrow> bool" where
  "rule_allows ms m \<longleftrightarrow> m \<in> set ms \<or> (m = HEAD \<and> GET \<in> set ms) \<or> m = OPTIONS"

datatype dispatch = NoRoute | WrongMethod | AutoOptions | Run endpoint

definition dispatch_request :: "string \<Rightarrow> http_method \<Rightarrow> dispatch" where
  "dispatch_request p m =
     (case path_segments p of
        None \<Rightarrow> NoRoute
      | Some segs \<Rightarrow>
          (let rules = url_rules segs
           in if rules = [] then NoRoute
              else if m = OPTIONS then AutoOptions
              else (case filter (\<lambda>(ms, e). rule_allows ms m) rules of
                      [] \<Rightarrow> WrongMethod
                    | (ms, e) # _ \<Rightarrow> Run e)))"

section \<open>Error handlers and headers\<close>

text \<open>The handlers registered with \<open>@app.errorhandler\<close>.\<close>

definition error_message :: "nat \<Rightarrow> string option" where
  "error_message code =
     (if code = 400 then Some ''bad request''
      else if code = 404 then Some ''resource not found''
      else if code = 405 then Some ''method not allowed''
      else if code = 422 then Some ''unprocessable entity''
      else if code = 500 then Some ''internal server error''
      else None)"

definition error_body :: "nat \<Rightarrow> string \<Rightarrow> pyval" where
  "error_body code msg =
     PDict [(PStr ''success'', PBool False), (PStr ''error'', PInt (int code)), (PStr ''message'', PStr msg)]"

text \<open>An HTTP exception goes to the handler of its code; any other exception is an
  internal server error.  A code without a handler keeps Werkzeug's page, no JSON.\<close>

definition handle_exception :: "exc \<Rightarrow> nat \<times> pyval option" where
  "handle_exception e =
     (let code = (case e of HTTPException c \<Rightarrow> c | _ \<Rightarrow> 500)
      in (code, map_option (error_body code) (error_message code)))"

text \<open>\<open>after_request\<close>: two headers on every response.\<close>

definition after_request_headers :: "(string \<times> string) list" where
  "after_request_headers =
     [(''Access-Control-Allow-Headers'', ''Content-Type,Authorization,true''),
      (''Access-Control-Allow-Methods'', ''GET, PATCH, DELETE, OPTIONS'')]"

text \<open>\<open>CORS(app, resources={r"/api/*": {"origins": "*"}})\<close>: the extension answers a
  request that carries an \<open>Origin\<close> and whose path matches the resource pattern.\<close>

definition cors_headers :: "request \<Rightarrow> (string \<times> string) list" where
  "cors_headers r =
     (if origin r \<noteq> None \<and> take 4 (path r) = ''/api'' then [(''Access-Control-Allow-Origin'', ''*'')]
      else [])"

section \<open>The application\<close>

definition run_endpoint ::
  "db \<Rightarrow> endpoint \<Rightarrow> request \<Rightarrow> rand \<Rightarrow> (db \<times> pyval result) option" where
  "run_endpoint s e r rnd =
     (case e of
        EpCategories \<Rightarrow> Some (s, categories_endpoint s)
      | EpAllQuestions \<Rightarrow> Some (s, all_questions s (page_arg r))
      | EpCreateQuestion \<Rightarrow> Some (create_question s (body r) (page_arg r))
      | EpDeleteQuestion i \<Rightarrow> Some (delete_question s i (page_arg r))
      | EpSearch \<Rightarrow> Some (s, question_search s (body r))
      | EpSieve i \<Rightarrow> Some (s, question_sieve s i (page_arg r))
      | EpQuizzes \<Rightarrow> map_option (\<lambda>res. (s, res)) (question_generator s (body r) rnd))"

definition finish :: "request \<Rightarrow> nat \<Rightarrow> pyval option \<Rightarrow> response" where
  "finish r code p =
     \<lparr>status = code, payload = (if req_method r = HEAD then None else p),
      headers = after_request_headers @ cors_headers r\<rparr>"

definition app_step :: "db \<Rightarrow> request \<Rightarrow> rand \<Rightarrow> (db \<times> response) option" where
  "app_step s r rnd =
     (case dispatch_request (path r) (req_method r) of
        NoRoute \<Rightarrow> Some (s, (case handle_exception (HTTPException 404) of (c, p) \<Rightarrow> finish r c p))
      | WrongMethod \<Rightarrow> Some (s, (case handle_exception (HTTPException 405) of (c, p) \<Rightarrow> finish r c p))
      | AutoOptions \<Rightarrow> Some (s, finish r 200 None)
      | Run e \<Rightarrow>
          map_option
            (\<lambda>(s', res). (s', (case res of
                                 Inr v \<Rightarrow> finish r 200 (Some v)
                               | Inl ex \<Rightarrow> (case handle_exception ex of (c, p) \<Rightarrow> finish r c p))))
            (run_endpoint s e r rnd))"

text \<open>The row that a POST /questions body describes, with id \<open>i\<close>: its four fields
  converted into the columns, or nothing when a field cannot be read or converted.  This
  is the abstract effect of a successful create.\<close>

definition body_row :: "pyval \<Rightarrow> int \<Rightarrow> Question option" where
  "body_row b i =
     (case (py_get b ''question'', py_get b ''answer'', py_get b ''difficulty'', py_get b ''category'') of
        (Inr q, Inr a, Inr d, Inr c) \<Rightarrow>
          (case (column_str q, column_str a, column_int d, column_int c) of
             (Inr q', Inr a', Inr d', Inr c') \<Rightarrow>
               Some \<lparr>qid = i, question = q', answer = a', category = c', difficulty = d'\<rparr>
           | _ \<Rightarrow> None)
      | _ \<Rightarrow> None)"

section \<open>Runs\<close>

text \<open>Sequences of answered requests, each with its own random draws.\<close>

inductive app_steps :: "db \<Rightarrow> db \<Rightarrow> bool" where
  idle: "app_steps s s"
| step: "app_step s r rnd = Some (s', resp) \<Longrightarrow> app_steps s' t \<Longrightarrow> app_steps s t"

text \<open>Requests and a store used by the witnesses.\<close>

abbreviation ex_request :: "http_method \<Rightarrow> string \<Rightarrow> pyval \<Rightarrow> request" where
  "ex_request m p b \<equiv> \<lparr>req_method = m, path = p, page_arg = None, body = b, origin = None\<rparr>"

abbreviation ex_created :: db where
  "ex_created \<equiv> ex_store\<lparr>questions := [ex_q 1, ex_q 2,
     \<lparr>qid = 3, question = Some ''Why is the sky blue?'', answer = Some ''Rayleigh'', category = Some 1,
      difficulty = Some 4\<rparr>], next_id := 4\<rparr>"

section \<open>Facts about the application\<close>

lemma query_one_or_none_Some:
  assumes "query_one_or_none s i = Inr (Some q)"
  shows "q \<in> set (questions s) \<and> qid q = i"
proof -
  from assms have "filter (\<lambda>q. qid q = i) (questions s) = [q]"
    by (auto simp: query_one_or_none_def split: list.splits)
  then have "q \<in> set (filter (\<lambda>q. qid q = i) (questions s))" by simp
  then show ?thesis by simp
qed

lemma delete_question_state:
  "fst (delete_question s i arg) = s \<or> (\<exists>q. fst (delete_question s i arg) = delete_row s q)"
  by (auto simp: delete_question_def Let_def split: sum.splits option.splits prod.splits)

lemma create_question_state:
  "fst (create_question s b arg) = s \<or>
   (\<exists>q a d c row. insert_question s q a d c = Inr (row, fst (create_question s b arg)))"
  by (auto simp: create_question_def Let_def split: sum.splits prod.splits)

lemma run_endpoint_state:
  assumes "run_endpoint s e r rnd = Some (s', res)"
  shows "s' = s \<or> (\<exists>q. s' = delete_row s q) \<or> (\<exists>q a d c row. insert_question s q a d c = Inr (row, s'))"
proof (cases e)
  case (EpDeleteQuestion i)
  with assms delete_question_state [of s i "page_arg r"] show ?thesis
    by (auto simp: run_endpoint_def)
next
  case EpCreateQuestion
  with assms create_question_state [of s "body r" "page_arg r"] show ?thesis
    by (auto simp: run_endpoint_def)
qed (use assms in \<open>auto simp: run_endpoint_def\<close>)

lemma app_step_run:
  assumes "app_step s r rnd = Some (s', resp)"
  shows "s' = s \<or> (\<exists>e res. run_endpoint s e r rnd = Some (s', res))"
proof (cases "dispatch_request (path r) (req_method r)")
  case (Run e)
  with assms show ?thesis
    by (cases "run_endpoint s e r rnd") (auto simp: app_step_def split: prod.splits)
qed (use assms in \<open>auto simp: app_step_def\<close>)

lemma app_step_state:
  assumes "app_step s r rnd = Some (s', resp)"
  shows "s' = s \<or> (\<exists>q. s' = delete_row s q) \<or> (\<exists>q a d c row. insert_question s q a d c = Inr (row, s'))"
  using app_step_run [OF assms] run_endpoint_state by blast

lemma app_step_ids:
  assumes "app_step s r rnd = Some (s', resp)"
  shows "next_id s \<le> next_id s' \<and> (\<forall>i. has_id s' i \<longrightarrow> has_id s i \<or> next_id s \<le> i)"
  using app_step_state [OF assms]
  by (auto simp: delete_row_def dest!: insert_question_row simp: has_id_def)

lemma app_steps_absent:
  "app_steps s t \<Longrightarrow> \<not> has_id s i \<Longrightarrow> i < next_id s \<Longrightarrow> \<not> has_id t i"
proof (induction rule: app_steps.induct)
  case (idle s)
  then show ?case by simp
next
  case (step s r rnd s' resp t)
  from app_step_ids [OF step.hyps(1)] step.prems have "\<not> has_id s' i" and "i < next_id s'"
    by auto
  then show ?case by (rule step.IH)
qed

text \<open>C9. Once \<open>DELETE /questions/<id>\<close> has succeeded, no later sequence of requests
  brings a question with that id back: the id sequence never reissues it.\<close>

theorem deleted_question_stays_deleted:
  assumes "wf_db s" and "delete_question s i arg = (s1, Inr v)" and "app_steps s1 t"
  shows "\<not> has_id t i"
proof -
  from assms(2) obtain q where q: "query_one_or_none s i = Inr (Some q)" and s1: "s1 = delete_row s q"
    by (auto simp: delete_question_def Let_def split: sum.splits option.splits)
  from query_one_or_none_Some [OF q] have "q \<in> set (questions s)" and "qid q = i"
    by simp_all
  with s1 have "\<not> has_id s1 i" by (simp add: has_id_delete_row)
  moreover from assms(1) \<open>q \<in> set (questions s)\<close> \<open>qid q = i\<close> s1 have "i < next_id s1"
    by (auto simp: wf_db_def)
  ultimately
  show ?thesis using app_steps_absent [OF assms(3)] by blast
qed



lemma quiz_loop_exc:
  assumes ret: "quiz_loop rnd pool prev k q = Some r"
  shows "\<forall>e. r = Inl e \<longrightarrow> e = ValueError \<or> e = TypeError"
proof (rule quiz_loop.raw_induct [where P = "\<lambda>rnd pool prev k q r.
         \<forall>e. r = Inl e \<longrightarrow> e = ValueError \<or> e = TypeError", OF _ ret], goal_cases)
  case (1 f rnd pool prev k q r)
  have it: "py_iter prev = Inl e \<Longrightarrow> e = TypeError" for e
    by (cases prev) simp_all
  have ch: "check_in_previous prev q = Inl e \<Longrightarrow> e = TypeError" for e
    using it by (auto simp: check_in_previous_def split: sum.splits)
  have cr: "choose_random_question rnd k pool = Inl e \<Longrightarrow> e = ValueError" for e
    by (auto simp: choose_random_question_def randrange_def split: sum.splits if_splits)
  have ln: "py_len prev = Inl e \<Longrightarrow> e = TypeError" for e
    using it by (auto simp: py_len_def split: sum.splits)
  show ?case
    using "1"(2) "1"(1) [of rnd pool prev "Suc k"] ch cr ln
    by (auto split: sum.splits if_splits)
qed

lemma question_generator_http:
  "question_generator s b rnd = Some (Inl (HTTPException c)) \<Longrightarrow> c = 400"
proof -
  assume g: "question_generator s b rnd = Some (Inl (HTTPException c))"
  have get: "py_get v k \<noteq> Inl (HTTPException c)" for v k by (cases v) simp_all
  have item: "py_getitem v k \<noteq> Inl (HTTPException c)" for v k
    by (cases v) (simp_all split: option.splits)
  have qc: "query_by_category s v \<noteq> Inl (HTTPException c)" for v
    by (simp add: query_by_category_def split: pyval.splits option.splits)
  have qs: "quiz_select rnd pool prev \<noteq> Some (Inl (HTTPException c))" for pool prev
    using quiz_loop_exc [of rnd pool prev 1]
    by (auto simp: quiz_select_def choose_random_question_def randrange_def split: sum.splits if_splits)
  have ms: "map_sum id quiz_response z = Inl x \<longleftrightarrow> z = Inl x" for z x by (cases z) auto
  from g get item qc qs show "c = 400"
    by (auto simp: question_generator_def ms split: sum.splits prod.splits if_splits)
qed

lemma py_get_exc: "py_get v k = Inl e \<Longrightarrow> e = AttributeError"
  by (cases v) simp_all

lemma run_endpoint_http:
  assumes "run_endpoint s e r rnd = Some (s', Inl (HTTPException c))"
  shows "c \<in> {400, 404, 422}"
proof (cases e)
  case EpQuizzes
  with assms question_generator_http show ?thesis by (auto simp: run_endpoint_def)
next
  case EpCreateQuestion
  with assms show ?thesis
    by (auto simp: run_endpoint_def create_question_def Let_def split: sum.splits prod.splits)
next
  case EpSearch
  with assms show ?thesis
    by (auto simp: run_endpoint_def question_search_def except_abort_def split: sum.splits
        dest: py_get_exc)
next
  case (EpDeleteQuestion i)
  with assms show ?thesis
    by (auto simp: run_endpoint_def delete_question_def except_abort_def Let_def
        split: sum.splits option.splits prod.splits)
next
  case (EpSieve i)
  with assms show ?thesis
    by (auto simp: run_endpoint_def question_sieve_def except_abort_def split: sum.splits)
qed (use assms in \<open>auto simp: run_endpoint_def categories_endpoint_def all_questions_def Let_def
        split: if_splits\<close>)

lemma handle_exception_registered:
  "handle_exception ex = (c, p) \<Longrightarrow> c \<in> {400, 404, 405, 422, 500} \<Longrightarrow>
   \<exists>msg. p = Some (error_body c msg)"
  by (auto simp: handle_exception_def error_message_def Let_def)

lemma app_step_Run:
  assumes "dispatch_request (path r) (req_method r) = Run e" and "app_step s r rnd = Some (s', resp)"
  shows "\<exists>res. run_endpoint s e r rnd = Some (s', res) \<and>
           resp = (case res of Inr v \<Rightarrow> finish r 200 (Some v)
                   | Inl ex \<Rightarrow> (case handle_exception ex of (c, p) \<Rightarrow> finish r c p))"
  using assms by (cases "run_endpoint s e r rnd") (auto simp: app_step_def split: prod.splits)

lemma app_step_headers:
  assumes "app_step s r rnd = Some (s', resp)"
  shows "headers resp = after_request_headers @ cors_headers r"
proof (cases "dispatch_request (path r) (req_method r)")
  case (Run e)
  from app_step_Run [OF Run assms] obtain res where
    "resp = (case res of Inr v \<Rightarrow> finish r 200 (Some v)
             | Inl ex \<Rightarrow> (case handle_exception ex of (c, p) \<Rightarrow> finish r c p))" by blast
  then show ?thesis by (auto simp: finish_def split: sum.splits prod.splits)
qed (use assms in \<open>auto simp: app_step_def finish_def handle_exception_def\<close>)

text \<open>C22. Every answer that is not a success is one of the registered error codes 400,
  404, 405, 422, 500, with the JSON body \<open>{success: False, error: code, message: ..}\<close> of
  its handler (for every method but HEAD, whose body is dropped).\<close>

theorem app_step_error_envelope:
  assumes step: "app_step s r rnd = Some (s', resp)" and m: "req_method r \<noteq> HEAD"
    and err: "status resp \<noteq> 200"
  shows "status resp \<in> {400, 404, 405, 422, 500} \<and> (\<exists>msg. payload resp = Some (error_body (status resp) msg))"
proof (cases "dispatch_request (path r) (req_method r)")
  case (Run e)
  from app_step_Run [OF Run step] obtain res where run: "run_endpoint s e r rnd = Some (s', res)"
    and resp: "resp = (case res of Inr v \<Rightarrow> finish r 200 (Some v)
                       | Inl ex \<Rightarrow> (case handle_exception ex of (c, p) \<Rightarrow> finish r c p))"
    by blast
  show ?thesis
  proof (cases res)
    case (Inr v)
    with resp err show ?thesis by (simp add: finish_def)
  next
    case (Inl ex)
    obtain c p where h: "handle_exception ex = (c, p)" by fastforce
    have "c \<in> {400, 404, 405, 422, 500}"
    proof (cases ex)
      case (HTTPException c')
      from run Inl HTTPException have "run_endpoint s e r rnd = Some (s', Inl (HTTPException c'))"
        by simp
      then have "c' \<in> {400, 404, 422}" by (rule run_endpoint_http)
      with h HTTPException show ?thesis by (auto simp: handle_exception_def)
    qed (use h in \<open>auto simp: handle_exception_def\<close>)
    with h handle_exception_registered have "\<exists>msg. p = Some (error_body c msg)" by blast
    with resp Inl h m \<open>c \<in> _\<close> show ?thesis by (auto simp: finish_def)
  qed
qed (use step m err in \<open>auto simp: app_step_def finish_def handle_exception_def error_message_def\<close>)

lemma split_on_prefix: "split_on d cs = w # ws \<Longrightarrow> prefix w cs"
  by (induction cs arbitrary: w ws) (auto split: if_splits list.splits)

lemma url_rules_first:
  "url_rules segs \<noteq> [] \<Longrightarrow> \<exists>a rest. segs = a # rest \<and> a \<in> {''categories'', ''questions'', ''quizzes''}"
  by (cases segs) (auto simp: url_rules_def url_map_def split: if_splits option.splits)

lemma routed_path_not_api:
  assumes "path_segments p = Some segs" and "url_rules segs \<noteq> []"
  shows "take 4 p \<noteq> ''/api''"
proof -
  from assms(1) obtain rest where p: "p = CHR ''/'' # rest" and segs: "segs = split_on CHR ''/'' rest"
    by (auto simp: path_segments_def split: list.splits if_splits)
  from url_rules_first [OF assms(2)] obtain a more where
    a: "segs = a # more" "a \<in> {''categories'', ''questions'', ''quizzes''}" by blast
  from segs a(1) have "prefix a rest" using split_on_prefix [of "CHR ''/''" rest a more] by simp
  then obtain tl' where "rest = a @ tl'" by (auto simp: prefix_def)
  with p a show ?thesis by auto
qed

lemma dispatch_routed:
  "dispatch_request p m \<noteq> NoRoute \<Longrightarrow> \<exists>segs. path_segments p = Some segs \<and> url_rules segs \<noteq> []"
  by (auto simp: dispatch_request_def Let_def split: option.splits if_splits)

text \<open>C23. Every response to a routed request carries the two headers of
  \<open>after_request\<close>, and none carries \<open>Access-Control-Allow-Origin\<close>: the CORS extension
  is configured for \<open>/api/*\<close>, and no route of the application is under \<open>/api\<close>.\<close>

theorem app_step_cors_headers:
  assumes "app_step s r rnd = Some (s', resp)" and "dispatch_request (path r) (req_method r) \<noteq> NoRoute"
  shows "set after_request_headers \<subseteq> set (headers resp)
         \<and> (\<forall>v. (''Access-Control-Allow-Origin'', v) \<notin> set (headers resp))"
proof -
  from dispatch_routed [OF assms(2)] routed_path_not_api have "cors_headers r = []"
    by (auto simp: cors_headers_def)
  moreover have "headers resp = after_request_headers @ cors_headers r"
    using assms(1) by (rule app_step_headers)
  ultimately show ?thesis by (simp add: after_request_headers_def)
qed

lemma split_on_no_delim: "d \<notin> set w \<Longrightarrow> split_on d w = [w]"
  by (induction w) auto

lemma split_on_append: "d \<notin> set w \<Longrightarrow> split_on d (w @ d # rest) = w # split_on d rest"
  by (induction w) (auto split: list.splits)

lemma nat_digits_no_slash: "CHR ''/'' \<notin> set (nat_digits n)"
  using nat_digits_digits [of n] by (auto simp: list_all_iff is_digit_def)

lemma path_segments_question_id:
  "path_segments (''/questions/'' @ nat_digits n) = Some [''questions'', nat_digits n]"
  using split_on_append [of "CHR ''/''" "''questions''" "nat_digits n"]
    split_on_no_delim [OF nat_digits_no_slash]
  by (simp add: path_segments_def)

lemma int_segment_nat_digits: "int_segment (nat_digits n) = Some (int n)"
  by (simp add: int_segment_def digits_value_nat_digits)

lemma nat_digits_not_search: "nat_digits n \<noteq> ''search''"
  using nat_digits_digits [of n] by (auto simp: is_digit_def)

text \<open>C35. The path that a client builds from a question id, \<open>/questions/\<close> followed by
  the id's decimal text, is routed to the delete handler with that same id.\<close>

theorem dispatch_delete_roundtrip:
  "dispatch_request (''/questions/'' @ int_to_string (int n)) DELETE = Run (EpDeleteQuestion (int n))"
proof -
  have ts: "int_to_string (int n) = nat_digits n" by (simp add: int_to_string_def)
  show ?thesis
    unfolding ts dispatch_request_def path_segments_question_id
    using nat_digits_not_search int_segment_nat_digits by (simp add: url_rules_def url_map_def rule_allows_def)
qed

text \<open>C36. The only method registered for \<open>/questions/<id>\<close> is DELETE: a request to
  such a path with any other method (OPTIONS aside, which Flask answers itself) is
  answered 405 with the JSON body of the 405 handler (no body for HEAD), whatever the
  store, the id and the request body, and the store is unchanged.\<close>

theorem app_step_question_id_wrong_method:
  assumes p: "path r = ''/questions/'' @ nat_digits n" and m: "req_method r \<notin> {DELETE, OPTIONS}"
  shows "app_step s r rnd =
           Some (s, \<lparr>status = 405,
                    payload = (if req_method r = HEAD then None
                               else Some (error_body 405 ''method not allowed'')),
                    headers = after_request_headers\<rparr>)"
proof -
  have "dispatch_request (''/questions/'' @ nat_digits n) (req_method r) = WrongMethod"
    unfolding dispatch_request_def path_segments_question_id
    using nat_digits_not_search int_segment_nat_digits m
    by (simp add: url_rules_def url_map_def rule_allows_def)
  with p show ?thesis
    by (simp add: app_step_def handle_exception_def error_message_def finish_def cors_headers_def)
qed

lemma run_endpoint_keeps_on_error:
  "run_endpoint s e r rnd = Some (s', Inl ex) \<Longrightarrow> s' = s"
  by (auto simp: run_endpoint_def create_question_def delete_question_def except_abort_def Let_def
      split: endpoint.splits sum.splits prod.splits option.splits)

lemma app_step_non_200_keeps:
  assumes step: "app_step s r rnd = Some (s', resp)" and err: "status resp \<noteq> 200"
  shows "s' = s"
proof (cases "dispatch_request (path r) (req_method r)")
  case (Run e)
  from app_step_Run [OF Run step] obtain res where run: "run_endpoint s e r rnd = Some (s', res)"
    and resp: "resp = (case res of Inr v \<Rightarrow> finish r 200 (Some v)
                       | Inl ex \<Rightarrow> (case handle_exception ex of (c, p) \<Rightarrow> finish r c p))"
    by blast
  show ?thesis
  proof (cases res)
    case (Inr v)
    with resp err show ?thesis by (simp add: finish_def)
  next
    case (Inl ex)
    with run show ?thesis by (rule_tac run_endpoint_keeps_on_error) simp
  qed
qed (use step in \<open>auto simp: app_step_def\<close>)

text \<open>C7. Errors are atomic: a request answered with any status other than 200 leaves the
  store as it was (a failed insert is rolled back, a failed delete removes nothing).\<close>

theorem app_step_error_atomic:
  assumes step: "app_step s r rnd = Some (s', resp)" and err: "status resp \<noteq> 200"
  shows "s' = s"
  using step err by (rule app_step_non_200_keeps)

lemma app_step_ok:
  assumes "dispatch_request (path r) (req_method r) = Run e" and "app_step s r rnd = Some (s', resp)"
    and "status resp = 200"
  shows "\<exists>v. run_endpoint s e r rnd = Some (s', Inr v)"
proof -
  from app_step_Run [OF assms(1,2)] obtain res where run: "run_endpoint s e r rnd = Some (s', res)"
    and resp: "resp = (case res of Inr v \<Rightarrow> finish r 200 (Some v)
                       | Inl ex \<Rightarrow> (case handle_exception ex of (c, p) \<Rightarrow> finish r c p))"
    by blast
  show ?thesis
  proof (cases res)
    case (Inl ex)
    obtain c p where h: "handle_exception ex = (c, p)" by fastforce
    have "c \<noteq> 200"
    proof (cases ex)
      case (HTTPException c')
      from run Inl HTTPException have "run_endpoint s e r rnd = Some (s', Inl (HTTPException c'))"
        by simp
      then have "c' \<in> {400, 404, 422}" by (rule run_endpoint_http)
      with h HTTPException show ?thesis by (auto simp: handle_exception_def)
    qed (use h in \<open>auto simp: handle_exception_def\<close>)
    with resp Inl h assms(3) show ?thesis by (simp add: finish_def)
  qed (use run in blast)
qed

lemma create_question_ok:
  assumes "create_question s b arg = (s', Inr v)"
  shows "\<exists>q a d c row. insert_question s q a d c = Inr (row, s')"
  using assms by (auto simp: create_question_def Let_def split: sum.splits prod.splits) blast

lemma insert_question_columns:
  assumes "insert_question s q a d c = Inr (row, s')"
  shows "\<exists>q' a' d' c'. column_str q = Inr q' \<and> column_str a = Inr a' \<and> column_int d = Inr d'
           \<and> column_int c = Inr c'
           \<and> row = \<lparr>qid = next_id s, question = q', answer = a', category = c', difficulty = d'\<rparr>"
  using assms by (auto simp: insert_question_def Let_def split: sum.splits if_splits)

lemma create_question_body_row:
  assumes "create_question s b arg = (s', Inr v)"
  shows "\<exists>q a d c row. insert_question s q a d c = Inr (row, s') \<and> body_row b (next_id s) = Some row"
proof -
  from assms obtain q a d c row where
    g: "py_get b ''question'' = Inr q" "py_get b ''answer'' = Inr a"
       "py_get b ''difficulty'' = Inr d" "py_get b ''category'' = Inr c"
    and ins: "insert_question s q a d c = Inr (row, s')"
    by (auto simp: create_question_def Let_def split: sum.splits prod.splits)
  from insert_question_columns [OF ins] g have "body_row b (next_id s) = Some row"
    by (auto simp: body_row_def)
  with ins show ?thesis by blast
qed

text \<open>C6. Refinement of an abstract key-value store: seen through the map from ids to
  rows, a request answered 200 by DELETE /questions/<id> removes that id, one answered 200
  by POST /questions adds the row its body describes under the next sequence value, and
  every other request, and every request answered with an error, leaves the map as it
  was.\<close>

theorem app_step_refines_map:
  assumes step: "app_step s r rnd = Some (s', resp)" and wf: "wf_db s"
  shows "store_map s' =
           (if status resp \<noteq> 200 then store_map s
            else case dispatch_request (path r) (req_method r) of
                   Run (EpDeleteQuestion i) \<Rightarrow> (store_map s)(i := None)
                 | Run EpCreateQuestion \<Rightarrow>
                     (case body_row (body r) (next_id s) of
                        None \<Rightarrow> store_map s
                      | Some row \<Rightarrow> (store_map s)(next_id s \<mapsto> row))
                 | _ \<Rightarrow> store_map s)"
proof (cases "status resp = 200")
  case False
  with app_step_non_200_keeps [OF step] show ?thesis by simp
next
  case ok: True
  show ?thesis
  proof (cases "dispatch_request (path r) (req_method r)")
    case (Run e)
    from app_step_ok [OF Run step ok] obtain v where run: "run_endpoint s e r rnd = Some (s', Inr v)"
      by blast
    show ?thesis
    proof (cases e)
      case (EpDeleteQuestion i)
      with run have "delete_question s i (page_arg r) = (s', Inr v)" by (simp add: run_endpoint_def)
      then have "s' = delete_row s q \<and> qid q = i" if "query_one_or_none s i = Inr (Some q)" for q
        using that query_one_or_none_Some [OF that] by (simp add: delete_question_def Let_def)
      moreover from \<open>delete_question s i (page_arg r) = (s', Inr v)\<close>
      obtain q where "query_one_or_none s i = Inr (Some q)"
        by (auto simp: delete_question_def Let_def split: sum.splits option.splits)
      ultimately show ?thesis using ok Run EpDeleteQuestion by (auto simp: store_map_delete_row)
    next
      case EpCreateQuestion
      with run have "create_question s (body r) (page_arg r) = (s', Inr v)"
        by (simp add: run_endpoint_def)
      from create_question_body_row [OF this] obtain q a d c row
        where ins: "insert_question s q a d c = Inr (row, s')"
          and row: "body_row (body r) (next_id s) = Some row" by blast
      from store_map_insert [OF ins wf] insert_question_row [OF ins] row ok Run EpCreateQuestion
      show ?thesis by simp
    qed (use run Run ok in \<open>auto simp: run_endpoint_def\<close>)
  qed (use step ok in \<open>auto simp: app_step_def\<close>)
qed

lemma filter_below_next_id:
  "wf_db s \<Longrightarrow> filter (\<lambda>r. qid r \<noteq> next_id s) (questions s) = questions s"
  by (auto simp: wf_db_def filter_id_conv)

lemma ex_delete_step:
  "app_step ex_store \<lparr>req_method = DELETE, path = ''/questions/1'', page_arg = None, body = PNone, origin = None\<rparr> rnd =
     Some (ex_store\<lparr>questions := [ex_q 2]\<rparr>,
           \<lparr>status = 200, payload = Some (PDict [(PStr ''success'', PBool True), (PStr ''deleted'', PInt 1),
                    (PStr ''total_questions'', PInt 1)]), headers = after_request_headers\<rparr>)"
  by (simp add: app_step_def dispatch_request_def path_segments_def url_rules_def url_map_def int_segment_def
      digits_value_def is_digit_def digit_value_def rule_allows_def run_endpoint_def
      delete_question_def query_one_or_none_def delete_row_def Let_def finish_def cors_headers_def
      query_all_ordered_def paginate_questions_def request_page_def)

theorem app_step_refines_map_witness:
  "app_step ex_store \<lparr>req_method = DELETE, path = ''/questions/1'', page_arg = None, body = PNone,
                       origin = None\<rparr> (\<lambda>k. k) =
     Some (ex_store\<lparr>questions := [ex_q 2]\<rparr>,
           \<lparr>status = 200, payload = Some (PDict [(PStr ''success'', PBool True), (PStr ''deleted'', PInt 1),
                    (PStr ''total_questions'', PInt 1)]), headers = after_request_headers\<rparr>)
   \<and> wf_db ex_store
   \<and> store_map (ex_store\<lparr>questions := [ex_q 2]\<rparr>) = (store_map ex_store)(1 := None)"
proof -
  have w: "wf_db ex_store" by (simp add: wf_db_def)
  from app_step_refines_map [OF ex_delete_step w] ex_delete_step w show ?thesis
    by (simp add: store_map_def fun_eq_iff)
qed

theorem app_step_question_id_wrong_method_witness:
  "path (ex_request POST ''/questions/1000'' PNone) = ''/questions/'' @ nat_digits 1000
   \<and> req_method (ex_request POST ''/questions/1000'' PNone) \<notin> {DELETE, OPTIONS}
   \<and> app_step ex_store (ex_request POST ''/questions/1000'' PNone) (\<lambda>k. k) =
       Some (ex_store, \<lparr>status = 405, payload = Some (error_body 405 ''method not allowed''),
                        headers = after_request_headers\<rparr>)"
proof -
  have d: "nat_digits 1000 = ''1000''" by code_simp
  have p: "path (ex_request POST ''/questions/1000'' PNone) = ''/questions/'' @ nat_digits 1000"
    by (simp only: d request.select_convs append.simps)
  from app_step_question_id_wrong_method [OF p, of ex_store "\<lambda>k. k"] p show ?thesis by simp
qed

theorem app_step_error_atomic_witness:
  "app_step ex_store (ex_request DELETE ''/questions/1000'' PNone) (\<lambda>k. k) =
     Some (ex_store, \<lparr>status = 422, payload = Some (error_body 422 ''unprocessable entity''),
                      headers = after_request_headers\<rparr>)
   \<and> (422::nat) \<noteq> 200"
proof -
  have a: "app_step ex_store (ex_request DELETE ''/questions/1000'' PNone) (\<lambda>k. k) =
     Some (ex_store, \<lparr>status = 422, payload = Some (error_body 422 ''unprocessable entity''),
                      headers = after_request_headers\<rparr>)"
    by (simp add: app_step_def dispatch_request_def path_segments_def url_rules_def url_map_def
      int_segment_def digits_value_def is_digit_def digit_value_def rule_allows_def run_endpoint_def
      delete_question_def query_one_or_none_def Let_def finish_def cors_headers_def except_abort_def
      handle_exception_def error_message_def)
  from app_step_error_atomic [OF a] a show ?thesis by simp
qed

theorem deleted_question_stays_deleted_witness:
  "wf_db ex_store
   \<and> delete_question ex_store 1 None =
       (ex_store\<lparr>questions := [ex_q 2]\<rparr>,
        Inr (PDict [(PStr ''success'', PBool True), (PStr ''deleted'', PInt 1),
                    (PStr ''total_questions'', PInt 1)]))
   \<and> app_steps (ex_store\<lparr>questions := [ex_q 2]\<rparr>) (ex_store\<lparr>questions := [ex_q 2]\<rparr>)
   \<and> \<not> has_id (ex_store\<lparr>questions := [ex_q 2]\<rparr>) 1"
proof -
  have d: "delete_question ex_store 1 None =
       (ex_store\<lparr>questions := [ex_q 2]\<rparr>,
        Inr (PDict [(PStr ''success'', PBool True), (PStr ''deleted'', PInt 1),
                    (PStr ''total_questions'', PInt 1)]))"
    by (simp add: delete_question_def query_one_or_none_def delete_row_def Let_def
        query_all_ordered_def paginate_questions_def request_page_def)
  have w: "wf_db ex_store" by (simp add: wf_db_def)
  from deleted_question_stays_deleted [OF w d app_steps.idle] w d app_steps.idle show ?thesis
    by blast
qed

theorem app_step_cors_headers_witness:
  "app_step ex_store \<lparr>req_method = POST, path = ''/questions/1000'', page_arg = None, body = PNone,
                       origin = Some ''http://localhost:3000''\<rparr> (\<lambda>k. k) =
     Some (ex_store, \<lparr>status = 405, payload = Some (error_body 405 ''method not allowed''),
              headers = after_request_headers\<rparr>)
   \<and> dispatch_request ''/questions/1000'' POST \<noteq> NoRoute
   \<and> set after_request_headers \<subseteq> set after_request_headers
   \<and> (\<forall>v. (''Access-Control-Allow-Origin'', v) \<notin> set after_request_headers)"
proof -
  have d: "dispatch_request ''/questions/1000'' POST = WrongMethod"
    by (simp add: dispatch_request_def path_segments_def url_rules_def url_map_def int_segment_def
      digits_value_def is_digit_def digit_value_def rule_allows_def)
  have a: "app_step ex_store \<lparr>req_method = POST, path = ''/questions/1000'', page_arg = None, body = PNone,
                       origin = Some ''http://localhost:3000''\<rparr> (\<lambda>k. k) =
     Some (ex_store, \<lparr>status = 405, payload = Some (error_body 405 ''method not allowed''),
              headers = after_request_headers\<rparr>)"
    using d by (simp add: app_step_def handle_exception_def error_message_def finish_def cors_headers_def)
  from app_step_cors_headers [OF a] d a show ?thesis by simp
qed

theorem app_step_error_envelope_witness:
  "app_step ex_store \<lparr>req_method = POST, path = ''/quizzes'', page_arg = None, body = PDict [],
                       origin = Some ''http://localhost:3000''\<rparr> (\<lambda>k. k) =
     Some (ex_store, \<lparr>status = 400, payload = Some (error_body 400 ''bad request''),
              headers = after_request_headers\<rparr>)
   \<and> POST \<noteq> HEAD \<and> (400::nat) \<noteq> 200
   \<and> (400::nat) \<in> {400, 404, 405, 422, 500}"
proof -
  have a: "app_step ex_store \<lparr>req_method = POST, path = ''/quizzes'', page_arg = None, body = PDict [],
                       origin = Some ''http://localhost:3000''\<rparr> (\<lambda>k. k) =
     Some (ex_store, \<lparr>status = 400, payload = Some (error_body 400 ''bad request''),
              headers = after_request_headers\<rparr>)"
    by (simp add: app_step_def dispatch_request_def path_segments_def url_rules_def url_map_def rule_allows_def
      run_endpoint_def question_generator_def handle_exception_def error_message_def finish_def
      cors_headers_def is_none_def)
  from app_step_error_envelope [OF a] a show ?thesis by simp
qed

end
