(* ===== verification/Spec2Isabelle.thy ===== *)
theory Spec2Isabelle
  imports App
begin

text \<open>
  \<^bold>\<open>The Trivia API backend, verified.\<close>

  The program is one Flask application, \<open>create_app\<close> in
  \<open>src/backend/flaskr/__init__.py\<close>: a module-level pagination helper
  \<open>paginate_questions\<close>, seven view functions registered with \<open>@app.route\<close>, five
  JSON error handlers, an \<open>after_request\<close> hook and the CORS extension.  The views read
  and change two tables, \<open>Question\<close> and \<open>Category\<close>, through the ORM classes of
  \<open>models.py\<close>, which is not part of the sources.  A request is routed to one view;
  the view returns a dictionary for \<open>jsonify\<close> or ends with an exception; an exception
  is answered by its error handler; the hook and the extension add headers.

  \<^bold>\<open>Theories.\<close>
  \<^item> \<open>Prelude\<close>: the Python values a view sees and returns (\<open>pyval\<close>, the decoded
    JSON body and the \<open>jsonify\<close> argument), the exceptions (\<open>exc\<close>; \<open>abort(c)\<close> is
    \<open>HTTPException c\<close>), results \<open>exc + 'a\<close>, and the Python operations the code uses:
    \<open>dict.get\<close>, subscription, iteration, \<open>len\<close>, truthiness, \<open>==\<close> with bool/int
    coercion, slicing with negative bounds (\<open>py_slice\<close>), \<open>str\<close>/\<open>repr\<close>, \<open>int()\<close>
    on text (\<open>parse_int\<close>, with the round trip \<open>parse_int_to_string\<close>), and a bare
    \<open>except\<close> that turns any exception into \<open>abort(code)\<close> (\<open>except_abort\<close>).
  \<^item> \<open>Store\<close>: the tables as a record \<open>db\<close> (rows in storage order and the id
    sequence), the ORM queries (\<open>query_all_ordered\<close>, \<open>query_by_category\<close>,
    \<open>query_one_or_none\<close>, \<open>query_categories\<close>), \<open>insert_question\<close> with the typed column
    conversions and the 32-bit range, \<open>delete_row\<close>, \<open>format_question\<close>, and the
    invariant \<open>wf_db\<close> (distinct ids, all below the sequence), and the abstraction
    \<open>store_map\<close> of the table as a map from ids to rows, which insert, delete and the
    id lookup refine.  Modelled from the data
    model of the specification, since \<open>models.py\<close> is not under \<open>src/\<close>.
  \<^item> \<open>Quiz\<close>: \<open>question_generator\<close> (POST /quizzes, lines 238 to 291) with its helpers
    \<open>choose_random_question\<close> and \<open>check_in_previous\<close> and its \<open>while\<close> loop
    (\<open>quiz_loop\<close>, \<open>quiz_select\<close>), and the contract of the selector
    (\<open>quiz_spec\<close>, \<open>fair_draws\<close>, \<open>client_previous\<close>).
  \<^item> \<open>Pagination\<close>: \<open>paginate_questions\<close> (lines 9 to 20) and the \<open>page\<close> argument.
  \<^item> \<open>Handlers\<close>: \<open>categories\<close>, \<open>all_questions\<close>, \<open>delete_question\<close>,
    \<open>create_question\<close>, \<open>question_sieve\<close> (lines 45 to 222).
  \<^item> \<open>Search\<close>: \<open>question_search\<close> (lines 170 to 192) and the SQL \<open>ILIKE\<close> it runs
    (\<open>like_match\<close>, \<open>ilike\<close>, \<open>query_ilike\<close>).
  \<^item> \<open>App\<close>: the URL map (\<open>url_map\<close>, the seven \<open>@app.route\<close> registrations in
    source order; \<open>match_segs\<close> and \<open>url_rules\<close>, Werkzeug's matching with its \<open>int\<close>
    converter; \<open>dispatch_request\<close>, with the automatic HEAD and OPTIONS), the error handlers (lines 299
    to 337: \<open>error_message\<close>, \<open>error_body\<close>, \<open>handle_exception\<close>), the headers of
    \<open>after_request\<close> (lines 34 to 38) and of \<open>CORS(app, resources={r"/api/*": ..})\<close>
    (line 30), one request as \<open>app_step\<close> from a store to the next store and the
    response, runs of requests as the inductive relation \<open>app_steps\<close>, and the abstract
    effect of a create, \<open>body_row\<close>.

  \<^bold>\<open>Effects.\<close>  The store is passed explicitly; the two views that change it
  (\<open>delete_question\<close>, \<open>create_question\<close>) return the new store with their result.
  Every \<open>abort\<close>, every exception a Python operation raises and every bare \<open>except\<close>
  is a branch of a result value.  The quiz view's random numbers are an explicit source
  \<open>rnd :: nat \<Rightarrow> nat\<close>: the \<open>k\<close>-th call of \<open>random.randrange(0, n, 1)\<close> in a request
  returns \<open>rnd k mod n\<close>, so every sequence of draws is some \<open>rnd\<close>.  The loop
  \<open>while (check_in_previous(question))\<close> has no bound, so it is a
  \<open>partial_function (option)\<close>: \<open>None\<close> is a request that never returns, and
  termination is proved as \<open>\<exists>r. quiz_select .. = Some r\<close>; no fuel is chosen.

  \<^bold>\<open>What is proved.\<close>  The claims are numbered by importance.
  \<^item> The quiz selector (C1 to C5, theory \<open>Quiz\<close> and this theory): a served question is
    an unserved question of the pool (C1); for a client that sends the ids of distinct
    pool questions and a fair random source, the selector returns and meets its contract
    (C2); under fair draws it returns exactly when some pool question is unserved or the
    list has the pool's length (C3); otherwise it never returns (C4); at the level of the
    application, POST /quizzes returns with status 200 for such a client (C5).
  \<^item> The application over requests (C6 to C9): seen as a map from ids to rows, a
    successful DELETE removes its id, a successful POST /questions adds the row its body
    describes, and every other request leaves the map alone (C6, against the abstract
    effect \<open>body_row\<close>); an error answer leaves the store unchanged (C7); creating a
    question and deleting it through the URL built from its id restores the table (C8,
    this theory); a deleted id never comes back over any run of requests (C9).
  \<^item> The quiz endpoint in detail (C10 to C15): the served question is the first
    unserved draw (C10); the exhaustion signal (C11); premature exhaustion, which discards
    an unserved redraw (C12); the endpoint serves its category (C13); the
    \<open>ValueError\<close> of an empty category (C14); 400 without the fields (C15).
  \<^item> Deleting and creating (C16 to C18): delete removes exactly one row (C16), a missing
    id gives 422 (C17), create uses a fresh id that can be looked up (C18).
  \<^item> Search (C19 to C21): a literal term is a case-insensitive substring search (C19),
    the term \<open>_\<close> matches every question with non-empty text (C20), a missing term gives
    422 (C21).
  \<^item> Errors and headers (C22, C23): every error answer carries the JSON envelope of a
    registered code (C22); no response carries \<open>Access-Control-Allow-Origin\<close> (C23).
  \<^item> Pagination and the list views (C24 to C31): the window of a page (C24), at most ten
    items (C25), GET /questions lists its page in id order (C26), the empty page past the
    end (C27), the slice of a negative page (C28); the category view filters its
    category (C29) and answers 404 on an empty category (C30); GET /questions answers 404
    past the last page (C31).
  \<^item> Inputs and bounds (C32 to C34): create accepts a body without fields (C32); an
    exhausted 32-bit sequence makes every create answer 422 (C33); GET /categories maps
    every id to its type (C34).
  \<^item> Routing (C35, C36): the delete URL built from an id routes back to that id (C35);
    every method but DELETE (and OPTIONS) on \<open>/questions/<id>\<close> is answered 405 (C36).

  \<^bold>\<open>Not modelled.\<close>  The test suite \<open>src/backend/test_flaskr.py\<close> (it runs against a
  live database); \<open>setup_db\<close> and the database connection; JSON numbers other than
  integers and request bodies that are not JSON; the \<open>Allow\<close> header of the automatic
  OPTIONS answer; Unicode case folding in \<open>ILIKE\<close> (ASCII only); trailing-slash
  redirects of Werkzeug; the \<open>_\<close> digit separators and non-ASCII digits that \<open>int()\<close>
  accepts in a \<open>page\<close> argument; concurrent requests (requests are answered one at a
  time).
\<close>

section \<open>Properties across the components\<close>

text \<open>C8. Creating a question through POST /questions and then deleting it through the URL
  built from its id (the next value of the sequence) gives back the question table of
  the start: the create handler, the store's insert, the route table, the delete handler
  and the store's delete agree on the id, and the DELETE answers 200.  The sequence is
  not reset. The developer's note above the view (line 96, "Works but gives an error message (422
  unprocessable entity) whenever used") does not hold of the code: for a stored id the
  view answers success; 422 comes only from an id that is not stored (C17) or from a
  failing store call, which the store model excludes.\<close>

theorem create_then_delete:
  assumes wf: "wf_db s" and nn: "0 \<le> next_id s"
    and post: "app_step s \<lparr>req_method = POST, path = ''/questions'', page_arg = a1, body = b,
                           origin = o1\<rparr> rnd = Some (s1, r1)"
    and ok: "status r1 = 200"
    and del: "app_step s1 \<lparr>req_method = DELETE, path = ''/questions/'' @ int_to_string (next_id s),
                            page_arg = a2, body = b2, origin = o2\<rparr> rnd2 = Some (s2, r2)"
  shows "questions s2 = questions s \<and> next_id s2 = next_id s + 1 \<and> status r2 = 200"
proof -
  let ?r1 = "\<lparr>req_method = POST, path = ''/questions'', page_arg = a1, body = b, origin = o1\<rparr>"
  let ?r2 = "\<lparr>req_method = DELETE, path = ''/questions/'' @ int_to_string (next_id s),
              page_arg = a2, body = b2, origin = o2\<rparr>"
  have d1: "dispatch_request (path ?r1) (req_method ?r1) = Run EpCreateQuestion"
    by (simp add: dispatch_request_def path_segments_def url_rules_def url_map_def rule_allows_def)
  from app_step_ok [OF d1 post ok] obtain v where
    "create_question s b a1 = (s1, Inr v)" by (auto simp: run_endpoint_def)
  from create_question_ok [OF this] obtain row q a d c where
    ins: "insert_question s q a d c = Inr (row, s1)" by blast
  from insert_question_row [OF ins]
  have r: "qid row = next_id s" "questions s1 = questions s @ [row]" "next_id s1 = next_id s + 1"
    by simp_all
  from insert_question_wf [OF ins wf] have wf1: "wf_db s1" .
  obtain n where n: "next_id s = int n" using nn by (metis nonneg_int_cases)
  have ts: "int_to_string (int n) = nat_digits n" by (simp add: int_to_string_def)
  have "dispatch_request (''/questions/'' @ nat_digits n) DELETE = Run (EpDeleteQuestion (int n))"
    unfolding dispatch_request_def path_segments_question_id
    using nat_digits_not_search int_segment_nat_digits by (simp add: url_rules_def url_map_def rule_allows_def)
  with n ts have d2: "dispatch_request (path ?r2) (req_method ?r2) = Run (EpDeleteQuestion (next_id s))"
    by simp
  from r have "row \<in> set (questions s1)" by simp
  with wf1 r have q1: "query_one_or_none s1 (next_id s) = Inr (Some row)"
    using query_one_or_none_present [of s1 row] by simp
  then obtain v2 where "delete_question s1 (next_id s) a2 = (delete_row s1 row, Inr v2)"
    by (simp add: delete_question_def Let_def)
  with del d2 have s2: "s2 = delete_row s1 row" and st: "status r2 = 200"
    by (auto simp: app_step_def run_endpoint_def finish_def)
  from wf have "filter (\<lambda>r. qid r \<noteq> next_id s) (questions s) = questions s"
    by (rule filter_below_next_id)
  with s2 r st show ?thesis by (simp add: delete_row_def)
qed

theorem create_then_delete_witness:
  "wf_db ex_store \<and> 0 \<le> next_id ex_store
   \<and> app_step ex_store (ex_request POST ''/questions'' ex_body) (\<lambda>k. k) =
       Some (ex_created,
             \<lparr>status = 200,
              payload = Some (PDict [(PStr ''success'', PBool True), (PStr ''created'', PInt 3),
                (PStr ''questions'', PList (map format_question (questions ex_created))),
                (PStr ''total_questions'', PInt 3)]),
              headers = after_request_headers\<rparr>)
   \<and> app_step ex_created (ex_request DELETE ''/questions/3'' PNone) (\<lambda>k. k) =
       Some (ex_store\<lparr>next_id := 4\<rparr>,
             \<lparr>status = 200,
              payload = Some (PDict [(PStr ''success'', PBool True), (PStr ''deleted'', PInt 3),
                                     (PStr ''total_questions'', PInt 2)]),
              headers = after_request_headers\<rparr>)
   \<and> questions (ex_store\<lparr>next_id := 4\<rparr>) = questions ex_store"
proof -
  have post: "app_step ex_store (ex_request POST ''/questions'' ex_body) (\<lambda>k. k) =
       Some (ex_created,
             \<lparr>status = 200,
              payload = Some (PDict [(PStr ''success'', PBool True), (PStr ''created'', PInt 3),
                (PStr ''questions'', PList (map format_question (questions ex_created))),
                (PStr ''total_questions'', PInt 3)]),
              headers = after_request_headers\<rparr>)"
    by (simp add: app_step_def dispatch_request_def path_segments_def url_rules_def url_map_def rule_allows_def
        run_endpoint_def create_question_def insert_question_def int4_value_def in_int4_def
        int4_max_def Let_def query_all_ordered_def paginate_questions_def request_page_def
        QUESTIONS_PER_PAGE_def py_slice_def py_slice_index_def finish_def cors_headers_def)
  have del: "app_step ex_created (ex_request DELETE ''/questions/3'' PNone) (\<lambda>k. k) =
       Some (ex_store\<lparr>next_id := 4\<rparr>,
             \<lparr>status = 200,
              payload = Some (PDict [(PStr ''success'', PBool True), (PStr ''deleted'', PInt 3),
                                     (PStr ''total_questions'', PInt 2)]),
              headers = after_request_headers\<rparr>)"
    by (simp add: app_step_def dispatch_request_def path_segments_def url_rules_def url_map_def int_segment_def
      digits_value_def is_digit_def digit_value_def rule_allows_def run_endpoint_def
      delete_question_def query_one_or_none_def delete_row_def Let_def finish_def cors_headers_def
      query_all_ordered_def paginate_questions_def request_page_def)
  have ts: "int_to_string 3 = ''3''" by code_simp
  have path: "app_step ex_created (ex_request DELETE (''/questions/'' @ int_to_string (next_id ex_store)) PNone)
                (\<lambda>k. k) = app_step ex_created (ex_request DELETE ''/questions/3'' PNone) (\<lambda>k. k)"
    by (simp only: ts db.select_convs append.simps)
  have wf: "wf_db ex_store" by (simp add: wf_db_def)
  from create_then_delete [OF wf _ post _ path [THEN trans, OF del]] post del wf show ?thesis
    by simp
qed

text \<open>C5. Liveness of the quiz at the level of the application: for a category other than
  0 that has questions, a previous-questions list as the client sends it, and a fair
  source of random draws, POST /quizzes returns, with status 200 and the store
  unchanged.\<close>

theorem quiz_request_returns:
  assumes c0: "c \<noteq> 0" and ne: "filter (\<lambda>q. category q = Some c) (questions s) \<noteq> []"
    and cl: "client_previous (filter (\<lambda>q. category q = Some c) (questions s)) xs"
    and fair: "fair_draws rnd (length (filter (\<lambda>q. category q = Some c) (questions s)))"
  shows "\<exists>v. app_step s (ex_request POST ''/quizzes'' (quiz_body c (PList xs))) rnd =
               Some (s, \<lparr>status = 200, payload = Some v, headers = after_request_headers\<rparr>)"
proof -
  let ?pool = "filter (\<lambda>q. category q = Some c) (questions s)"
  from quiz_select_client_total [OF ne cl fair]
  obtain r where r: "quiz_select rnd ?pool (PList xs) = Some r" by blast
  from quiz_select_returns [OF r py_iter.simps(1) ne] obtain w where w: "r = Inr w"
    by blast
  have g: "question_generator s (quiz_body c (PList xs)) rnd = Some (Inr (quiz_response w))"
    using question_generator_category [OF c0, of "PList xs" s rnd] r w by simp
  have d: "dispatch_request ''/quizzes'' POST = Run EpQuizzes"
    by (simp add: dispatch_request_def path_segments_def url_rules_def url_map_def rule_allows_def)
  from d g show ?thesis
    by (simp add: app_step_def run_endpoint_def finish_def cors_headers_def)
qed

theorem quiz_request_returns_witness:
  "(3::int) \<noteq> 0 \<and> filter (\<lambda>q. category q = Some 3) (questions ex_db) \<noteq> []
   \<and> client_previous (filter (\<lambda>q. category q = Some 3) (questions ex_db)) [PInt 1]
   \<and> fair_draws (\<lambda>k. k) (length (filter (\<lambda>q. category q = Some 3) (questions ex_db)))
   \<and> (\<exists>v. app_step ex_db (ex_request POST ''/quizzes'' (quiz_body 3 (PList [PInt 1]))) (\<lambda>k. k) =
          Some (ex_db, \<lparr>status = 200, payload = Some v, headers = after_request_headers\<rparr>))"
proof -
  have c: "client_previous (filter (\<lambda>q. category q = Some 3) (questions ex_db)) [PInt 1]"
    by (simp add: client_previous_def)
  have f: "fair_draws (\<lambda>k. k) (length (filter (\<lambda>q. category q = Some 3) (questions ex_db)))"
    using fair_draws_identity [of "Suc (Suc 0)"] by simp
  have ne: "filter (\<lambda>q. category q = Some (3::int)) (questions ex_db) \<noteq> []" by simp
  from quiz_request_returns [OF _ ne c f] c f ne show ?thesis by simp
qed

end
